theory Spec2Isabelle
  imports Complex_Main "HOL-Library.Monad_Syntax"
begin

section \<open>Numbers\<close>

text \<open>
  The program computes with JavaScript numbers. A number is modelled as a real, or one
  of the three special values the code can produce and test for: \<open>NaN\<close> (what
  \<^verbatim>\<open>parseFloat\<close> returns on an empty slice, \<^verbatim>\<open>0/0\<close>, \<^verbatim>\<open>Math.acos\<close> out of range) and the
  two infinities (the initial bounds of \<^verbatim>\<open>bbox\<close>, \<^verbatim>\<open>x/0\<close>). The finite part is exact:
  rounding to 53 bits, overflow of finite results and the sign of zero are not
  represented. A statement about the values of an expression therefore holds of the
  program only where the program computes exactly; the theorems about the program are
  stated on its control flow and on its own expressions and tests instead, and say so
  where they need more.
\<close>

datatype number = Fin real | PosInf | NegInf | NaN

fun isFinite :: "number \<Rightarrow> bool" where
  "isFinite (Fin a) = True"
| "isFinite _ = False"

fun nneg :: "number \<Rightarrow> number" where
  "nneg (Fin a) = Fin (- a)"
| "nneg PosInf = NegInf"
| "nneg NegInf = PosInf"
| "nneg NaN = NaN"

fun nadd :: "number \<Rightarrow> number \<Rightarrow> number" where
  "nadd (Fin a) (Fin b) = Fin (a + b)"
| "nadd NaN y = NaN"
| "nadd x NaN = NaN"
| "nadd PosInf NegInf = NaN"
| "nadd NegInf PosInf = NaN"
| "nadd PosInf y = PosInf"
| "nadd x PosInf = PosInf"
| "nadd NegInf y = NegInf"
| "nadd x NegInf = NegInf"

text \<open>The sign of an infinite product or quotient; a zero counts as positive.\<close>

fun nsign :: "number \<Rightarrow> bool" where
  "nsign (Fin a) = (a < 0)"
| "nsign NegInf = True"
| "nsign x = False"

definition inf_of :: "bool \<Rightarrow> number" where
  "inf_of negative = (if negative then NegInf else PosInf)"

fun nmul :: "number \<Rightarrow> number \<Rightarrow> number" where
  "nmul (Fin a) (Fin b) = Fin (a * b)"
| "nmul NaN y = NaN"
| "nmul x NaN = NaN"
| "nmul (Fin a) y = (if a = 0 then NaN else inf_of (nsign (Fin a) \<noteq> nsign y))"
| "nmul x (Fin b) = (if b = 0 then NaN else inf_of (nsign x \<noteq> nsign (Fin b)))"
| "nmul x y = inf_of (nsign x \<noteq> nsign y)"

fun ndiv :: "number \<Rightarrow> number \<Rightarrow> number" where
  "ndiv (Fin a) (Fin b) =
     (if b = 0 then (if a = 0 then NaN else inf_of (a < 0)) else Fin (a / b))"
| "ndiv NaN y = NaN"
| "ndiv x NaN = NaN"
| "ndiv (Fin a) y = Fin 0"
| "ndiv x (Fin b) = inf_of (nsign x \<noteq> nsign (Fin b))"
| "ndiv x y = NaN"

fun nabs :: "number \<Rightarrow> number" where
  "nabs (Fin a) = Fin \<bar>a\<bar>"
| "nabs NaN = NaN"
| "nabs x = PosInf"

fun nless :: "number \<Rightarrow> number \<Rightarrow> bool" where
  "nless (Fin a) (Fin b) = (a < b)"
| "nless NaN y = False"
| "nless x NaN = False"
| "nless x NegInf = False"
| "nless PosInf y = False"
| "nless x y = True"

fun nle :: "number \<Rightarrow> number \<Rightarrow> bool" where
  "nle (Fin a) (Fin b) = (a \<le> b)"
| "nle NaN y = False"
| "nle x NaN = False"
| "nle NegInf y = True"
| "nle x PosInf = True"
| "nle x y = False"

instantiation number :: "{plus, minus, uminus, times, inverse, abs, ord}"
begin

definition plus_number :: "number \<Rightarrow> number \<Rightarrow> number" where
  "plus_number = nadd"

definition uminus_number :: "number \<Rightarrow> number" where
  "uminus_number = nneg"

definition minus_number :: "number \<Rightarrow> number \<Rightarrow> number" where
  "minus_number a b = nadd a (nneg b)"

definition times_number :: "number \<Rightarrow> number \<Rightarrow> number" where
  "times_number = nmul"

definition divide_number :: "number \<Rightarrow> number \<Rightarrow> number" where
  "divide_number = ndiv"

definition inverse_number :: "number \<Rightarrow> number" where
  "inverse_number a = ndiv (Fin 1) a"

definition abs_number :: "number \<Rightarrow> number" where
  "abs_number = nabs"

definition less_number :: "number \<Rightarrow> number \<Rightarrow> bool" where
  "less_number = nless"

definition less_eq_number :: "number \<Rightarrow> number \<Rightarrow> bool" where
  "less_eq_number = nle"

instance ..

end

subsection \<open>The functions of \<^verbatim>\<open>Math\<close>\<close>

fun Math_sqrt :: "number \<Rightarrow> number" where
  "Math_sqrt (Fin a) = (if a < 0 then NaN else Fin (sqrt a))"
| "Math_sqrt PosInf = PosInf"
| "Math_sqrt x = NaN"

text \<open>\<^verbatim>\<open>Math.round\<close> rounds to the nearest integer, a tie upwards: \<open>\<lfloor>x + 1/2\<rfloor>\<close>.\<close>

fun Math_round :: "number \<Rightarrow> number" where
  "Math_round (Fin a) = Fin (of_int \<lfloor>a + 1 / 2\<rfloor>)"
| "Math_round x = x"

fun Math_ceil :: "number \<Rightarrow> number" where
  "Math_ceil (Fin a) = Fin (of_int \<lceil>a\<rceil>)"
| "Math_ceil x = x"

fun Math_max :: "number \<Rightarrow> number \<Rightarrow> number" where
  "Math_max NaN y = NaN"
| "Math_max x NaN = NaN"
| "Math_max x y = (if nless x y then y else x)"

definition Math_PI :: number where
  "Math_PI = Fin pi"

fun Math_cos :: "number \<Rightarrow> number" where
  "Math_cos (Fin a) = Fin (cos a)"
| "Math_cos x = NaN"

fun Math_sin :: "number \<Rightarrow> number" where
  "Math_sin (Fin a) = Fin (sin a)"
| "Math_sin x = NaN"

fun Math_acos :: "number \<Rightarrow> number" where
  "Math_acos (Fin a) = (if a < - 1 \<or> 1 < a then NaN else Fin (arccos a))"
| "Math_acos x = NaN"

text \<open>The angle of the point \<open>(x, y)\<close>, in \<open>(-\<pi>, \<pi>]\<close>.\<close>

definition atan2 :: "real \<Rightarrow> real \<Rightarrow> real" where
  "atan2 y x =
     (if 0 < x then arctan (y / x)
      else if x < 0 then (if 0 \<le> y then arctan (y / x) + pi else arctan (y / x) - pi)
      else if 0 < y then pi / 2
      else if y < 0 then - (pi / 2)
      else 0)"

fun Math_atan2 :: "number \<Rightarrow> number \<Rightarrow> number" where
  "Math_atan2 (Fin y) (Fin x) = Fin (atan2 y x)"
| "Math_atan2 NaN x = NaN"
| "Math_atan2 y NaN = NaN"
| "Math_atan2 PosInf PosInf = Fin (pi / 4)"
| "Math_atan2 PosInf NegInf = Fin (3 * pi / 4)"
| "Math_atan2 PosInf (Fin x) = Fin (pi / 2)"
| "Math_atan2 NegInf PosInf = Fin (- (pi / 4))"
| "Math_atan2 NegInf NegInf = Fin (- (3 * pi / 4))"
| "Math_atan2 NegInf (Fin x) = Fin (- (pi / 2))"
| "Math_atan2 (Fin y) PosInf = Fin 0"
| "Math_atan2 (Fin y) NegInf = (if y < 0 then Fin (- pi) else Fin pi)"

section \<open>2D point helpers\<close>

type_synonym Pt = "number \<times> number"

definition sub_pt :: "Pt \<Rightarrow> Pt \<Rightarrow> Pt" where
  "sub_pt a b = (fst a - fst b, snd a - snd b)"

definition add_pt :: "Pt \<Rightarrow> Pt \<Rightarrow> Pt" where
  "add_pt a b = (fst a + fst b, snd a + snd b)"

definition scale2 :: "Pt \<Rightarrow> number \<Rightarrow> Pt" where
  "scale2 a s = (fst a * s, snd a * s)"

definition dot :: "Pt \<Rightarrow> Pt \<Rightarrow> number" where
  "dot a b = fst a * fst b + snd a * snd b"

definition cross :: "Pt \<Rightarrow> Pt \<Rightarrow> number" where
  "cross a b = fst a * snd b - snd a * fst b"

definition len :: "Pt \<Rightarrow> number" where
  "len a = Math_sqrt (fst a * fst a + snd a * snd a)"

definition norm_pt :: "Pt \<Rightarrow> Pt" where
  "norm_pt a = (let l = len a in
     if l > Fin (1 / 10 ^ 10) then (fst a / l, snd a / l) else (Fin 0, Fin 0))"

definition leftNormal :: "Pt \<Rightarrow> Pt" where
  "leftNormal e = (- snd e, fst e)"

section \<open>Configuration\<close>

datatype JoinType = Square | Bevel | Round | Miter

datatype EndType = Polygon | Joined | Butt | Square | Round

section \<open>Polygon offset algorithm\<close>

text \<open>
  A loop that pushes onto \<^verbatim>\<open>result\<close> is a function from the list to the extended list.
  A loop whose exit depends on a number may never exit (its bound can be \<open>PosInf\<close>), so
  the functions of this section return an \<open>option\<close>: \<open>None\<close> is a call that does not
  return.
\<close>

text \<open>\<^verbatim>\<open>while (da > Math.PI) da -= 2 * Math.PI;\<close>\<close>

partial_function (option) wrapDown :: "number \<Rightarrow> number option" where
  "wrapDown da = (if da > Math_PI then wrapDown (da - Fin 2 * Math_PI) else Some da)"

text \<open>\<^verbatim>\<open>while (da < -Math.PI) da += 2 * Math.PI;\<close>\<close>

partial_function (option) wrapUp :: "number \<Rightarrow> number option" where
  "wrapUp da = (if da < - Math_PI then wrapUp (da + Fin 2 * Math_PI) else Some da)"

text \<open>The point pushed by step \<open>i\<close> of the arc loop.\<close>

definition arcPoint :: "number \<Rightarrow> number \<Rightarrow> number \<Rightarrow> number \<Rightarrow> number \<Rightarrow> nat \<Rightarrow> Pt" where
  "arcPoint cx cy a1 stepAngle offsetAmt i =
     (let a = a1 + stepAngle * Fin (real i) in
      (Math_round (cx + Math_cos a * offsetAmt), Math_round (cy + Math_sin a * offsetAmt)))"

text \<open>\<^verbatim>\<open>for (let i = 0; i <= steps; i++) result.push(...)\<close>, from the counter \<open>i\<close> on.\<close>

partial_function (option) arcLoop ::
  "number \<Rightarrow> number \<Rightarrow> number \<Rightarrow> number \<Rightarrow> number \<Rightarrow> number \<Rightarrow> nat \<Rightarrow> Pt list \<Rightarrow> Pt list option"
where
  "arcLoop cx cy a1 stepAngle offsetAmt steps i result =
     (if Fin (real i) \<le> steps
      then arcLoop cx cy a1 stepAngle offsetAmt steps (Suc i)
             (result @ [arcPoint cx cy a1 stepAngle offsetAmt i])
      else Some result)"

text \<open>The number of arc steps, from the normalised sweep \<open>da\<close>.\<close>

definition arcSteps :: "number \<Rightarrow> number \<Rightarrow> number \<Rightarrow> number" where
  "arcSteps da offsetAmt arcTolerance =
     (let r = \<bar>offsetAmt\<bar> in
      Math_max (Fin 2) (Math_ceil (\<bar>da\<bar> / (Fin 2 * Math_acos (Fin 1 - arcTolerance / r)))))"

text \<open>The sweep \<open>a2 - a1\<close> after the two normalising loops.\<close>

definition arcSweep :: "Pt \<Rightarrow> Pt \<Rightarrow> number option" where
  "arcSweep n1 n2 =
     (let a1 = Math_atan2 (snd n1) (fst n1);
          a2 = Math_atan2 (snd n2) (fst n2)
      in Option.bind (wrapDown (a2 - a1)) wrapUp)"

definition addRoundJoin ::
  "number \<Rightarrow> number \<Rightarrow> Pt \<Rightarrow> Pt \<Rightarrow> number \<Rightarrow> number \<Rightarrow> Pt list \<Rightarrow> Pt list option"
where
  "addRoundJoin cx cy n1 n2 offsetAmt arcTolerance result =
     (let a1 = Math_atan2 (snd n1) (fst n1) in
      case arcSweep n1 n2 of
        None \<Rightarrow> None
      | Some da \<Rightarrow>
          (let steps = arcSteps da offsetAmt arcTolerance;
               stepAngle = da / steps
           in arcLoop cx cy a1 stepAngle offsetAmt steps 0 result))"

text \<open>
  The point \<^verbatim>\<open>[Math.round(curr[0] + d[0] * s), Math.round(curr[1] + d[1] * s)]\<close>, the
  form of every point the vertex loop pushes.
\<close>

definition pointAlong :: "Pt \<Rightarrow> Pt \<Rightarrow> number \<Rightarrow> Pt" where
  "pointAlong cur d s =
     (Math_round (fst cur + fst d * s), Math_round (snd cur + snd d * s))"

definition offsetDir :: "number \<Rightarrow> number" where
  "offsetDir offsetAmt = (if offsetAmt > Fin 0 then Fin 1 else Fin (- 1))"

definition eps6 :: number where
  "eps6 = Fin (1 / 10 ^ 6)"

text \<open>The two points of a bevel (and of a square join).\<close>

definition bevelJoin :: "Pt \<Rightarrow> Pt \<Rightarrow> Pt \<Rightarrow> number \<Rightarrow> Pt list \<Rightarrow> Pt list" where
  "bevelJoin cur outN1 outN2 offsetAmt result =
     result @ [pointAlong cur outN1 offsetAmt, pointAlong cur outN2 offsetAmt]"

text \<open>
  The body of the vertex loop of \<^verbatim>\<open>offsetPolygon\<close>, for the vertex \<open>cur\<close> (\<^verbatim>\<open>curr\<close>) between \<open>prev\<close>
  and \<open>next\<close>. The \<^verbatim>\<open>switch\<close> falls through from \<^verbatim>\<open>Miter\<close> to the bevel when the miter point
  is not pushed.
\<close>

definition offsetVertex ::
  "Pt \<Rightarrow> Pt \<Rightarrow> Pt \<Rightarrow> number \<Rightarrow> JoinType \<Rightarrow> number \<Rightarrow> number \<Rightarrow> Pt list \<Rightarrow> Pt list option"
where
  "offsetVertex prev cur next offsetAmt joinType miterLimit arcTolerance result =
     (let e1 = norm_pt (sub_pt cur prev);
          e2 = norm_pt (sub_pt next cur);
          outN1 = leftNormal e1;
          outN2 = leftNormal e2;
          cr = cross e1 e2;
          isConvex = (cr * offsetDir offsetAmt > Fin 0)
      in
      if \<not> isConvex \<or> \<bar>cr\<bar> < eps6 then
        (let bisect = norm_pt (add_pt outN1 outN2);
             sinHalf = cross e1 bisect
         in
         if \<bar>sinHalf\<bar> < eps6 then Some (result @ [pointAlong cur outN1 offsetAmt])
         else (let dist = offsetAmt / sinHalf
               in Some (result @ [pointAlong cur bisect dist])))
      else
        (case joinType of
           Miter \<Rightarrow>
             (let bisect = norm_pt (add_pt outN1 outN2);
                  sinHalf = cross e1 bisect
              in
              if \<bar>sinHalf\<bar> > eps6 then
                (let dist = offsetAmt / sinHalf in
                 if \<bar>dist\<bar> \<le> miterLimit * \<bar>offsetAmt\<bar>
                 then Some (result @ [pointAlong cur bisect dist])
                 else Some (bevelJoin cur outN1 outN2 offsetAmt result))
              else Some (bevelJoin cur outN1 outN2 offsetAmt result))
         | Bevel \<Rightarrow> Some (bevelJoin cur outN1 outN2 offsetAmt result)
         | JoinType.Square \<Rightarrow> Some (bevelJoin cur outN1 outN2 offsetAmt result)
         | JoinType.Round \<Rightarrow>
             addRoundJoin (fst cur) (snd cur) outN1 outN2 offsetAmt arcTolerance result))"

text \<open>A counted \<^verbatim>\<open>for\<close> loop over the indices \<open>is\<close> whose body may not return.\<close>

primrec forEach :: "(nat \<Rightarrow> 's \<Rightarrow> 's option) \<Rightarrow> nat list \<Rightarrow> 's \<Rightarrow> 's option" where
  "forEach body [] s = Some s"
| "forEach body (i # is) s = Option.bind (body i s) (forEach body is)"

definition isOpen :: "EndType \<Rightarrow> bool" where
  "isOpen endType = (endType = Butt \<or> endType = EndType.Square \<or> endType = EndType.Round)"

definition loopCount :: "EndType \<Rightarrow> nat \<Rightarrow> nat" where
  "loopCount endType n = (if isOpen endType then n - 1 else n)"

text \<open>The vertex loop: \<^verbatim>\<open>for (let i = 0; i < loopCount; i++)\<close>.\<close>

definition vertexLoop ::
  "Pt list \<Rightarrow> number \<Rightarrow> JoinType \<Rightarrow> EndType \<Rightarrow> number \<Rightarrow> number \<Rightarrow> Pt list \<Rightarrow> Pt list option"
where
  "vertexLoop pts offsetAmt joinType endType miterLimit arcTolerance result =
     (let n = length pts in
      forEach (\<lambda>i. offsetVertex (pts ! ((i + n - 1) mod n)) (pts ! i) (pts ! ((i + 1) mod n))
                      offsetAmt joinType miterLimit arcTolerance)
        [0 ..< loopCount endType n] result)"

definition startCap ::
  "Pt list \<Rightarrow> number \<Rightarrow> EndType \<Rightarrow> number \<Rightarrow> Pt list \<Rightarrow> Pt list option"
where
  "startCap pts offsetAmt endType arcTolerance result =
     (let startPt = pts ! 0;
          startEdge = norm_pt (sub_pt (pts ! 1) (pts ! 0));
          startNorm = leftNormal startEdge;
          backDir = (- fst startEdge, - snd startEdge)
      in
      if endType = EndType.Round then
        addRoundJoin (fst startPt) (snd startPt) (- fst startNorm, - snd startNorm) startNorm
          offsetAmt arcTolerance result
      else if endType = EndType.Square then
        Some ([(Math_round (fst startPt - fst startNorm * offsetAmt + fst backDir * offsetAmt),
                Math_round (snd startPt - snd startNorm * offsetAmt + snd backDir * offsetAmt)),
               (Math_round (fst startPt + fst startNorm * offsetAmt + fst backDir * offsetAmt),
                Math_round (snd startPt + snd startNorm * offsetAmt + snd backDir * offsetAmt))]
              @ result)
      else Some result)"

definition endCap ::
  "Pt list \<Rightarrow> number \<Rightarrow> EndType \<Rightarrow> number \<Rightarrow> Pt list \<Rightarrow> Pt list option"
where
  "endCap pts offsetAmt endType arcTolerance result =
     (let n = length pts;
          endPt = pts ! (n - 1);
          endEdge = norm_pt (sub_pt (pts ! (n - 1)) (pts ! (n - 2)));
          endNorm = leftNormal endEdge
      in
      if endType = EndType.Round then
        addRoundJoin (fst endPt) (snd endPt) endNorm (- fst endNorm, - snd endNorm)
          offsetAmt arcTolerance result
      else if endType = EndType.Square then
        Some (result @
              [(Math_round (fst endPt + fst endNorm * offsetAmt + fst endEdge * offsetAmt),
                Math_round (snd endPt + snd endNorm * offsetAmt + snd endEdge * offsetAmt)),
               (Math_round (fst endPt - fst endNorm * offsetAmt + fst endEdge * offsetAmt),
                Math_round (snd endPt - snd endNorm * offsetAmt + snd endEdge * offsetAmt))])
      else Some result)"

definition offsetPolygon ::
  "Pt list \<Rightarrow> number \<Rightarrow> JoinType \<Rightarrow> EndType \<Rightarrow> number \<Rightarrow> number \<Rightarrow> Pt list option"
where
  "offsetPolygon pts offsetAmt joinType endType miterLimit arcTolerance =
     (let n = length pts in
      if n < 3 then Some []
      else
        Option.bind (vertexLoop pts offsetAmt joinType endType miterLimit arcTolerance [])
          (\<lambda>result.
             if isOpen endType \<and> n \<ge> 2 then
               Option.bind (startCap pts offsetAmt endType arcTolerance result)
                 (endCap pts offsetAmt endType arcTolerance)
             else Some result))"

section \<open>SVG path parser\<close>

text \<open>
  A JavaScript string is modelled as a list of characters, one per code unit, for the
  strings whose code units are below 256. An index at or beyond the length reads
  \<^verbatim>\<open>undefined\<close>, which compares unequal to every character: each such read is guarded by
  the length here.
\<close>

definition isSep :: "char \<Rightarrow> bool" where
  "isSep ch = (ch = CHR '' '' \<or> ch = CHR 0x09 \<or> ch = CHR 0x0A \<or> ch = CHR 0x0D \<or> ch = CHR '','')"

definition isLetter :: "char \<Rightarrow> bool" where
  "isLetter ch = ((of_char (CHR ''A'') \<le> (of_char ch :: nat) \<and> (of_char ch :: nat) \<le> of_char (CHR ''Z''))
     \<or> (of_char (CHR ''a'') \<le> (of_char ch :: nat) \<and> (of_char ch :: nat) \<le> of_char (CHR ''z'')))"

definition isDigit :: "char \<Rightarrow> bool" where
  "isDigit ch = (of_char (CHR ''0'') \<le> (of_char ch :: nat) \<and> (of_char ch :: nat) \<le> of_char (CHR ''9''))"

function skipSep :: "string \<Rightarrow> nat \<Rightarrow> nat" where
  "skipSep src pos =
     (if pos < length src \<and> isSep (src ! pos) then skipSep src (pos + 1) else pos)"
  by pat_completeness auto
termination
  by (relation "measure (\<lambda>(src, pos). length src - pos)") auto

text \<open>\<^verbatim>\<open>while (s.pos < s.src.length && s.src[s.pos] >= '0' && s.src[s.pos] <= '9') s.pos++;\<close>\<close>

function skipDigits :: "string \<Rightarrow> nat \<Rightarrow> nat" where
  "skipDigits src pos =
     (if pos < length src \<and> isDigit (src ! pos) then skipDigits src (pos + 1) else pos)"
  by pat_completeness auto
termination
  by (relation "measure (\<lambda>(src, pos). length src - pos)") auto

definition slice :: "string \<Rightarrow> nat \<Rightarrow> nat \<Rightarrow> string" where
  "slice src start stop = take (stop - start) (drop start src)"

subsection \<open>\<^verbatim>\<open>parseFloat\<close>\<close>

text \<open>
  \<^verbatim>\<open>parseFloat\<close> skips leading white space and reads the longest prefix that is a decimal
  literal: an optional sign, then \<^verbatim>\<open>Infinity\<close> or digits with an optional fraction, and an
  exponent when it has at least one digit. Without a digit in the mantissa the result
  is \<open>NaN\<close>. The value is the exact decimal value.
\<close>

text \<open>
  The white space and line terminators of JavaScript below 256: the six of ASCII and the
  no-break space.
\<close>

definition isWhite :: "char \<Rightarrow> bool" where
  "isWhite ch = (ch = CHR '' '' \<or> ch = CHR 0x09 \<or> ch = CHR 0x0A \<or> ch = CHR 0x0B
     \<or> ch = CHR 0x0C \<or> ch = CHR 0x0D \<or> ch = CHR 0xA0)"

definition digitsValue :: "string \<Rightarrow> nat" where
  "digitsValue ds = foldl (\<lambda>a ch. 10 * a + (of_char ch - of_char (CHR ''0''))) 0 ds"

definition pow10 :: "int \<Rightarrow> real" where
  "pow10 e = (if 0 \<le> e then 10 ^ nat e else 1 / 10 ^ nat (- e))"

definition exponentOf :: "string \<Rightarrow> int" where
  "exponentOf rest =
     (case rest of
        [] \<Rightarrow> 0
      | ch # r \<Rightarrow>
          if ch = CHR ''e'' \<or> ch = CHR ''E'' then
            (let neg = (r \<noteq> [] \<and> hd r = CHR ''-'');
                 r1 = (if r \<noteq> [] \<and> (hd r = CHR ''-'' \<or> hd r = CHR ''+'') then tl r else r);
                 ds = takeWhile isDigit r1
             in if ds = [] then 0
                else if neg then - int (digitsValue ds) else int (digitsValue ds))
          else 0)"

definition parseFloat :: "string \<Rightarrow> number" where
  "parseFloat str =
     (let s1 = dropWhile isWhite str;
          neg = (s1 \<noteq> [] \<and> hd s1 = CHR ''-'');
          s2 = (if s1 \<noteq> [] \<and> (hd s1 = CHR ''-'' \<or> hd s1 = CHR ''+'') then tl s1 else s1)
      in
      if take 8 s2 = ''Infinity'' then (if neg then NegInf else PosInf)
      else
        (let ip = takeWhile isDigit s2;
             r1 = dropWhile isDigit s2;
             hasDot = (r1 \<noteq> [] \<and> hd r1 = CHR ''.'');
             fp = (if hasDot then takeWhile isDigit (tl r1) else []);
             r2 = (if hasDot then dropWhile isDigit (tl r1) else r1)
         in
         if ip = [] \<and> fp = [] then NaN
         else
           (let m = real (digitsValue ip) + real (digitsValue fp) / 10 ^ length fp;
                v = m * pow10 (exponentOf r2)
            in Fin (if neg then - v else v))))"

text \<open>\<^verbatim>\<open>parseNumber\<close> returns the number and the new position.\<close>

definition parseNumber :: "string \<Rightarrow> nat \<Rightarrow> number \<times> nat" where
  "parseNumber src pos0 =
     (let start = skipSep src pos0;
          p1 = (if start < length src \<and> (src ! start = CHR ''-'' \<or> src ! start = CHR ''+'')
                then start + 1 else start);
          p2 = skipDigits src p1;
          p3 = (if p2 < length src \<and> src ! p2 = CHR ''.'' then skipDigits src (p2 + 1) else p2);
          p4 = (if p3 < length src \<and> (src ! p3 = CHR ''e'' \<or> src ! p3 = CHR ''E'') then
                  (let q = p3 + 1;
                       q1 = (if q < length src \<and> (src ! q = CHR ''-'' \<or> src ! q = CHR ''+'')
                             then q + 1 else q)
                   in skipDigits src q1)
                else p3)
      in (parseFloat (slice src start p4), p4))"

datatype SegType = SegM | SegL | SegC | SegQ

record Segment =
  seg_type :: SegType
  seg_pts :: "Pt list"

record Subpath =
  segs :: "Segment list"
  closed :: bool

text \<open>
  The state of the loop of \<^verbatim>\<open>parseSvgPath\<close>. The variable \<^verbatim>\<open>current\<close> of the source is
  \<^verbatim>\<open>null\<close> until the first subpath is pushed and is the last pushed subpath from then
  on: it is the last element of \<open>subpaths\<close>, and \<^verbatim>\<open>null\<close> when the list is empty.
\<close>

record PState =
  pos :: nat
  subpaths :: "Subpath list"
  cx :: number
  cy :: number
  cmd :: string

definition updCurrent :: "(Subpath \<Rightarrow> Subpath) \<Rightarrow> Subpath list \<Rightarrow> Subpath list" where
  "updCurrent f sps = (if sps = [] then [] else butlast sps @ [f (last sps)])"

definition newSubpath :: "Pt \<Rightarrow> Subpath" where
  "newSubpath p = \<lparr>segs = [\<lparr>seg_type = SegM, seg_pts = [p]\<rparr>], closed = False\<rparr>"

text \<open>
  \<^verbatim>\<open>if (!current) { current = { segs: [M start] }; subpaths.push(current); }\<close>
  followed by \<^verbatim>\<open>current.segs.push(seg)\<close>.
\<close>

definition pushSeg :: "Pt \<Rightarrow> Segment \<Rightarrow> Subpath list \<Rightarrow> Subpath list" where
  "pushSeg start seg sps =
     updCurrent (\<lambda>sp. sp\<lparr>segs := segs sp @ [seg]\<rparr>)
       (if sps = [] then [newSubpath start] else sps)"

text \<open>Two numbers with separators skipped between them.\<close>

definition parsePair :: "string \<Rightarrow> nat \<Rightarrow> number \<times> number \<times> nat" where
  "parsePair src p =
     (let (x, p1) = parseNumber src p;
          (y, p2) = parseNumber src (skipSep src p1)
      in (x, y, p2))"

text \<open>The chain of \<^verbatim>\<open>if (cmd === ...)\<close> at the end of the loop body.\<close>

definition parseCommand :: "string \<Rightarrow> PState \<Rightarrow> PState" where
  "parseCommand src st =
     (let c = cmd st in
      if c = ''M'' \<or> c = ''m'' then
        (let (x, y, p) = parsePair src (pos st);
             ax = (if c = ''M'' then x else cx st + x);
             ay = (if c = ''M'' then y else cy st + y)
         in st\<lparr>pos := p, subpaths := subpaths st @ [newSubpath (ax, ay)], cx := ax, cy := ay,
               cmd := (if c = ''M'' then ''L'' else ''l'')\<rparr>)
      else if c = ''L'' \<or> c = ''l'' then
        (let (x, y, p) = parsePair src (pos st);
             ax = (if c = ''L'' then x else cx st + x);
             ay = (if c = ''L'' then y else cy st + y)
         in st\<lparr>pos := p,
               subpaths := pushSeg (ax, ay) \<lparr>seg_type = SegL, seg_pts = [(ax, ay)]\<rparr> (subpaths st),
               cx := ax, cy := ay\<rparr>)
      else if c = ''H'' \<or> c = ''h'' then
        (let (x, p) = parseNumber src (pos st);
             ax = (if c = ''H'' then x else cx st + x)
         in st\<lparr>pos := p,
               subpaths := pushSeg (ax, cy st) \<lparr>seg_type = SegL, seg_pts = [(ax, cy st)]\<rparr> (subpaths st),
               cx := ax\<rparr>)
      else if c = ''V'' \<or> c = ''v'' then
        (let (y, p) = parseNumber src (pos st);
             ay = (if c = ''V'' then y else cy st + y)
         in st\<lparr>pos := p,
               subpaths := pushSeg (cx st, ay) \<lparr>seg_type = SegL, seg_pts = [(cx st, ay)]\<rparr> (subpaths st),
               cy := ay\<rparr>)
      else if c = ''C'' \<or> c = ''c'' then
        (let (x1, y1, p1) = parsePair src (pos st);
             (x2, y2, p2) = parsePair src (skipSep src p1);
             (x, y, p) = parsePair src (skipSep src p2);
             rel = (c = ''c'');
             c1 = (if rel then (cx st + x1, cy st + y1) else (x1, y1));
             c2 = (if rel then (cx st + x2, cy st + y2) else (x2, y2));
             to = (if rel then (cx st + x, cy st + y) else (x, y))
         in st\<lparr>pos := p,
               subpaths := pushSeg (cx st, cy st) \<lparr>seg_type = SegC, seg_pts = [c1, c2, to]\<rparr> (subpaths st),
               cx := fst to, cy := snd to\<rparr>)
      else if c = ''Q'' \<or> c = ''q'' then
        (let (x1, y1, p1) = parsePair src (pos st);
             (x, y, p) = parsePair src (skipSep src p1);
             rel = (c = ''q'');
             ctrl = (if rel then (cx st + x1, cy st + y1) else (x1, y1));
             to = (if rel then (cx st + x, cy st + y) else (x, y))
         in st\<lparr>pos := p,
               subpaths := pushSeg (cx st, cy st) \<lparr>seg_type = SegQ, seg_pts = [ctrl, to]\<rparr> (subpaths st),
               cx := fst to, cy := snd to\<rparr>)
      else st\<lparr>pos := pos st + 1\<rparr>)"

text \<open>How one pass through the loop body ends: at \<^verbatim>\<open>break\<close>, or back at the loop test.\<close>

datatype 'a ctl = Break 'a | Again 'a

text \<open>The peek at the next character, the command chain and the closing \<^verbatim>\<open>skipSep\<close>.\<close>

definition parseTail :: "string \<Rightarrow> PState \<Rightarrow> PState ctl" where
  "parseTail src st =
     (if pos st < length src \<and> isLetter (src ! pos st) then Again st
      else (let st' = parseCommand src st in Again (st'\<lparr>pos := skipSep src (pos st')\<rparr>)))"

text \<open>The loop body, entered with \<open>pos st < length src\<close>.\<close>

definition parseIter :: "string \<Rightarrow> PState \<Rightarrow> PState ctl" where
  "parseIter src st =
     (let ch = src ! pos st;
          st1 = (if isLetter ch then st\<lparr>cmd := [ch], pos := skipSep src (pos st + 1)\<rparr> else st)
      in
      if cmd st1 = ''Z'' \<or> cmd st1 = ''z'' then
        Again (st1\<lparr>subpaths := updCurrent (\<lambda>sp. sp\<lparr>closed := True\<rparr>) (subpaths st1),
                   cmd := '''', pos := skipSep src (pos st1)\<rparr>)
      else if cmd st1 = '''' \<or> isSep ch then
        (let st2 = st1\<lparr>pos := skipSep src (pos st1)\<rparr> in
         if pos st2 \<ge> length src then Break st2
         else if isLetter (src ! pos st2) then Again st2
         else if cmd st2 = '''' then Break st2
         else parseTail src st2)
      else parseTail src st1)"

text \<open>
  \<^verbatim>\<open>while (s.pos < s.src.length) { ... }\<close>. The body does not always advance the position,
  so the loop may run forever: \<open>None\<close> is a call that does not return.
\<close>

partial_function (option) parseLoop :: "string \<Rightarrow> PState \<Rightarrow> Subpath list option" where
  "parseLoop src st =
     (if pos st < length src then
        (case parseIter src st of
           Break st' \<Rightarrow> Some (subpaths st')
         | Again st' \<Rightarrow> parseLoop src st')
      else Some (subpaths st))"

text \<open>\<^verbatim>\<open>String.prototype.trim\<close>: white space and line terminators go, at both ends.\<close>

definition trim :: "string \<Rightarrow> string" where
  "trim str = rev (dropWhile isWhite (rev (dropWhile isWhite str)))"

definition parseSvgPath :: "string \<Rightarrow> Subpath list option" where
  "parseSvgPath pathData =
     parseLoop (trim pathData) \<lparr>pos = 0, subpaths = [], cx = Fin 0, cy = Fin 0, cmd = ''''\<rparr>"

section \<open>Bezier flattening\<close>

definition mid_pt :: "Pt \<Rightarrow> Pt \<Rightarrow> Pt" where
  "mid_pt a b = ((fst a + fst b) / Fin 2, (snd a + snd b) / Fin 2)"

text \<open>The flatness test of \<^verbatim>\<open>flattenCubic\<close>.\<close>

definition isFlat :: "Pt \<Rightarrow> Pt \<Rightarrow> Pt \<Rightarrow> Pt \<Rightarrow> number \<Rightarrow> bool" where
  "isFlat p0 p1 p2 p3 tol =
     (let ux = Fin 3 * fst p1 - Fin 2 * fst p0 - fst p3;
          uy = Fin 3 * snd p1 - Fin 2 * snd p0 - snd p3;
          vx = Fin 3 * fst p2 - Fin 2 * fst p3 - fst p0;
          vy = Fin 3 * snd p2 - Fin 2 * snd p3 - snd p0
      in Math_max (ux * ux + uy * uy) (vx * vx + vy * vy) \<le> Fin 16 * tol * tol)"

text \<open>
  The recursion has no depth bound, and the test is false whenever a coordinate is
  \<open>NaN\<close>: \<open>None\<close> is a call that does not return.
\<close>

partial_function (option) flattenCubic ::
  "Pt \<Rightarrow> Pt \<Rightarrow> Pt \<Rightarrow> Pt \<Rightarrow> number \<Rightarrow> Pt list \<Rightarrow> Pt list option"
where
  "flattenCubic p0 p1 p2 p3 tol out =
     (if isFlat p0 p1 p2 p3 tol then Some (out @ [p3])
      else
        (let m01 = mid_pt p0 p1;
             m12 = mid_pt p1 p2;
             m23 = mid_pt p2 p3;
             m012 = mid_pt m01 m12;
             m123 = mid_pt m12 m23;
             mid = mid_pt m012 m123
         in Option.bind (flattenCubic p0 m01 m012 mid tol out)
              (\<lambda>out'. flattenCubic mid m123 m23 p3 tol out')))"

definition flattenQuadratic :: "Pt \<Rightarrow> Pt \<Rightarrow> Pt \<Rightarrow> number \<Rightarrow> Pt list \<Rightarrow> Pt list option" where
  "flattenQuadratic p0 p1 p2 tol out =
     (let c1 = (fst p0 + (Fin 2 / Fin 3) * (fst p1 - fst p0),
                snd p0 + (Fin 2 / Fin 3) * (snd p1 - snd p0));
          c2 = (fst p2 + (Fin 2 / Fin 3) * (fst p1 - fst p2),
                snd p2 + (Fin 2 / Fin 3) * (snd p1 - snd p2))
      in flattenCubic p0 c1 c2 p2 tol out)"

section \<open>SVG path to integer points\<close>

definition SCALE :: number where
  "SCALE = Fin 1000"

definition FLATTEN_TOLERANCE :: number where
  "FLATTEN_TOLERANCE = Fin (1 / 10)"

text \<open>
  The loop over the segments of the first subpath, with the running point \<open>cur\<close> and the
  points collected so far.
\<close>

fun flattenSegs :: "Segment list \<Rightarrow> number \<Rightarrow> Pt \<Rightarrow> Pt list \<Rightarrow> Pt list option" where
  "flattenSegs [] tol cur floatPts = Some floatPts"
| "flattenSegs (seg # rest) tol cur floatPts =
     (case seg_type seg of
        SegM \<Rightarrow> flattenSegs rest tol (seg_pts seg ! 0) (floatPts @ [seg_pts seg ! 0])
      | SegL \<Rightarrow> flattenSegs rest tol (seg_pts seg ! 0) (floatPts @ [seg_pts seg ! 0])
      | SegC \<Rightarrow>
          Option.bind
            (flattenCubic cur (seg_pts seg ! 0) (seg_pts seg ! 1) (seg_pts seg ! 2) tol floatPts)
            (flattenSegs rest tol (seg_pts seg ! 2))
      | SegQ \<Rightarrow>
          Option.bind (flattenQuadratic cur (seg_pts seg ! 0) (seg_pts seg ! 1) tol floatPts)
            (flattenSegs rest tol (seg_pts seg ! 1)))"

definition scalePts :: "Pt list \<Rightarrow> number \<Rightarrow> Pt list" where
  "scalePts floatPts sc = map (\<lambda>p. (Math_round (fst p * sc), Math_round (snd p * sc))) floatPts"

text \<open>The shoelace sum of the winding check.\<close>

definition shoelace :: "Pt list \<Rightarrow> number" where
  "shoelace pts =
     foldl (\<lambda>area i. let j = (i + 1) mod length pts in
              area + (fst (pts ! j) - fst (pts ! i)) * (snd (pts ! j) + snd (pts ! i)))
       (Fin 0) [0 ..< length pts]"

definition fixWinding :: "Pt list \<Rightarrow> Pt list" where
  "fixWinding pts = (if shoelace pts > Fin 0 then rev pts else pts)"

text \<open>
  \<^verbatim>\<open>svgToPoints\<close> returns the points or \<^verbatim>\<open>null\<close> (the inner \<open>None\<close>); the outer \<open>None\<close> is a
  call that does not return.
\<close>

definition svgToPoints :: "string \<Rightarrow> number \<Rightarrow> number \<Rightarrow> Pt list option option" where
  "svgToPoints pathData sc tol =
     (case parseSvgPath pathData of
        None \<Rightarrow> None
      | Some sps \<Rightarrow>
          if length sps = 0 then Some None
          else
            (case flattenSegs (segs (sps ! 0)) tol (Fin 0, Fin 0) [] of
               None \<Rightarrow> None
             | Some floatPts \<Rightarrow>
                 if length floatPts < 3 then Some None
                 else Some (Some (fixWinding (scalePts floatPts sc)))))"

section \<open>Bounding box\<close>

record BBox =
  minX :: number
  minY :: number
  maxX :: number
  maxY :: number

definition bboxStep :: "BBox \<Rightarrow> Pt \<Rightarrow> BBox" where
  "bboxStep b p =
     (let b1 = (if fst p < minX b then b\<lparr>minX := fst p\<rparr> else b);
          b2 = (if snd p < minY b1 then b1\<lparr>minY := snd p\<rparr> else b1);
          b3 = (if fst p > maxX b2 then b2\<lparr>maxX := fst p\<rparr> else b2)
      in if snd p > maxY b3 then b3\<lparr>maxY := snd p\<rparr> else b3)"

definition bbox :: "Pt list \<Rightarrow> BBox" where
  "bbox pts = foldl bboxStep \<lparr>minX = PosInf, minY = PosInf, maxX = NegInf, maxY = NegInf\<rparr> pts"

section \<open>Points to SVG path string\<close>

text \<open>
  \<^verbatim>\<open>toFixed(2)\<close>: the sign, then the integer \<open>n\<close> nearest to \<open>100 \<sqdot> |x|\<close> (a tie upwards) with a
  point before its last two digits. From \<open>10\<^sup>2\<^sup>1\<close> on JavaScript prints a shortest
  round-trip literal instead, which the exact model cannot give; it prints the digits.
\<close>

fun digits :: "nat \<Rightarrow> string" where
  "digits n = (if n < 10 then [char_of (of_char (CHR ''0'') + n)]
               else digits (n div 10) @ [char_of (of_char (CHR ''0'') + n mod 10)])"

fun toFixed2 :: "number \<Rightarrow> string" where
  "toFixed2 (Fin x) =
     (let n = nat \<lfloor>\<bar>x\<bar> * 100 + 1 / 2\<rfloor>
      in (if x < 0 then ''-'' else '''') @ digits (n div 100) @ ''.''
           @ digits (n mod 100 div 10) @ digits (n mod 10))"
| "toFixed2 PosInf = ''Infinity''"
| "toFixed2 NegInf = ''-Infinity''"
| "toFixed2 NaN = ''NaN''"

definition pointsToSvg :: "Pt list \<Rightarrow> number \<Rightarrow> string" where
  "pointsToSvg pts sc =
     (if length pts = 0 then ''''
      else
        foldl (\<lambda>d p. d @ '' L '' @ toFixed2 (fst p / sc) @ '' '' @ toFixed2 (snd p / sc))
          (''M '' @ toFixed2 (fst (pts ! 0) / sc) @ '' '' @ toFixed2 (snd (pts ! 0) / sc))
          (tl pts)
        @ '' Z'')"

section \<open>Main offset orchestrator\<close>

text \<open>
  The numeric codes of the two enums. In \<^verbatim>\<open>offsetPolygon\<close> a join code other than 0, 1
  and 3 reaches the \<^verbatim>\<open>default\<close> label of the \<^verbatim>\<open>switch\<close>, which is the round join; an end
  code other than 2, 3 and 4 is a closed path.
\<close>

definition joinTypeOf :: "number \<Rightarrow> JoinType" where
  "joinTypeOf c = (if c = Fin 0 then JoinType.Square else if c = Fin 1 then Bevel
                   else if c = Fin 3 then Miter else JoinType.Round)"

definition endTypeOf :: "number \<Rightarrow> EndType" where
  "endTypeOf c = (if c = Fin 1 then Joined else if c = Fin 2 then Butt
                  else if c = Fin 3 then EndType.Square else if c = Fin 4 then EndType.Round
                  else Polygon)"

text \<open>The anchor coordinate \<^verbatim>\<open>min + (max - min) * origin\<close> of a box along one axis.\<close>

definition anchorAt :: "number \<Rightarrow> number \<Rightarrow> number \<Rightarrow> number" where
  "anchorAt lo hi fr = lo + (hi - lo) * fr"

text \<open>The anchor shift along one axis, from the bounds of the two boxes on that axis.\<close>

definition anchorDelta :: "number \<Rightarrow> number \<Rightarrow> number \<Rightarrow> number \<Rightarrow> number option \<Rightarrow> number" where
  "anchorDelta origMin origMax offMin offMax origin =
     (case origin of
        Some fr \<Rightarrow> Math_round (anchorAt origMin origMax fr - anchorAt offMin offMax fr)
      | None \<Rightarrow> Fin 0)"

text \<open>The anchor translation of \<^verbatim>\<open>offsetSvgPath\<close>: the points handed to \<^verbatim>\<open>pointsToSvg\<close>.\<close>

definition anchorTranslate ::
  "Pt list \<Rightarrow> Pt list \<Rightarrow> number option \<Rightarrow> number option \<Rightarrow> Pt list"
where
  "anchorTranslate pts offsetPts originX originY =
     (if originX \<noteq> None \<or> originY \<noteq> None then
        (let origBox = bbox pts;
             offBox = bbox offsetPts;
             dx = anchorDelta (minX origBox) (maxX origBox) (minX offBox) (maxX offBox) originX;
             dy = anchorDelta (minY origBox) (maxY origBox) (minY offBox) (maxY offBox) originY
         in if dx \<noteq> Fin 0 \<or> dy \<noteq> Fin 0
            then map (\<lambda>p. (fst p + dx, snd p + dy)) offsetPts
            else offsetPts)
      else offsetPts)"

definition offsetSvgPath ::
  "string \<Rightarrow> number \<Rightarrow> number \<Rightarrow> number \<Rightarrow> number \<Rightarrow> number \<Rightarrow> number option \<Rightarrow> number option
     \<Rightarrow> string option"
where
  "offsetSvgPath pathData offsetAmt joinType endType miterLimit arcTolerance originX originY =
     (if \<not> isFinite offsetAmt \<or> \<bar>offsetAmt\<bar> < Fin (1 / 1000) then Some pathData
      else
        (case svgToPoints pathData SCALE FLATTEN_TOLERANCE of
           None \<Rightarrow> None
         | Some None \<Rightarrow> Some ''''
         | Some (Some pts) \<Rightarrow>
             if length pts < 3 then Some ''''
             else
               (case offsetPolygon pts (offsetAmt * SCALE) (joinTypeOf joinType)
                       (endTypeOf endType) miterLimit arcTolerance of
                  None \<Rightarrow> None
                | Some offsetPts \<Rightarrow>
                    if length offsetPts < 3 then Some ''''
                    else Some (pointsToSvg (anchorTranslate pts offsetPts originX originY) SCALE))))"

text \<open>The recursion equations of the partial functions, for evaluation.\<close>

declare wrapDown.simps [code]
declare wrapUp.simps [code]
declare arcLoop.simps [code]
declare parseLoop.simps [code]
declare flattenCubic.simps [code]

declare skipSep.simps [simp del]
declare skipDigits.simps [simp del]
declare digits.simps [simp del]

section \<open>Auxiliary notions\<close>

text \<open>
  The theorems below are stated on the tests and expressions of the source themselves,
  so that they do not depend on how a sum, a product or a square root is rounded. Where a
  statement needs the arithmetic to be exact, it says for which numbers: integers small
  enough that every intermediate value is an integer below \<open>2\<^sup>5\<^sup>3\<close>.
\<close>

text \<open>An integer (\<^verbatim>\<open>Number.isInteger\<close>): neither \<open>NaN\<close> nor infinite, and without a fraction.\<close>

fun isInteger :: "number \<Rightarrow> bool" where
  "isInteger (Fin x) = (x \<in> \<int>)"
| "isInteger x = False"

text \<open>An integer of absolute value at most \<open>B\<close>, and a point with two such coordinates.\<close>

definition smallInt :: "real \<Rightarrow> number \<Rightarrow> bool" where
  "smallInt B c = (isInteger c \<and> \<bar>c\<bar> \<le> Fin B)"

definition smallIntPt :: "real \<Rightarrow> Pt \<Rightarrow> bool" where
  "smallIntPt B p = (smallInt B (fst p) \<and> smallInt B (snd p))"

text \<open>
  What \<^verbatim>\<open>Math.round\<close> can return: an integer, or the \<open>NaN\<close> or infinity it was given.
\<close>

definition integerOrNonFinite :: "number \<Rightarrow> bool" where
  "integerOrNonFinite c = (isInteger c \<or> \<not> isFinite c)"

definition roundedCoords :: "Pt \<Rightarrow> bool" where
  "roundedCoords p = (integerOrNonFinite (fst p) \<and> integerOrNonFinite (snd p))"

text \<open>A number that equals its own rounding; for a finite number, an integer.\<close>

definition isRounded :: "number \<Rightarrow> bool" where
  "isRounded c = (Math_round c = c)"

definition roundedPt :: "Pt \<Rightarrow> bool" where
  "roundedPt p = (isRounded (fst p) \<and> isRounded (snd p))"

text \<open>A point with two finite coordinates, from a pair of reals.\<close>

definition finPt :: "real \<times> real \<Rightarrow> Pt" where
  "finPt p = (Fin (fst p), Fin (snd p))"

text \<open>
  The flatness test of \<^verbatim>\<open>flattenCubic\<close> holds at depth at most \<open>d\<close> on every branch of the
  subdivision: the recursion of the source with a bound on its depth.
\<close>

fun flatWithin :: "nat \<Rightarrow> Pt \<Rightarrow> Pt \<Rightarrow> Pt \<Rightarrow> Pt \<Rightarrow> number \<Rightarrow> bool" where
  "flatWithin 0 p0 p1 p2 p3 tol = isFlat p0 p1 p2 p3 tol"
| "flatWithin (Suc d) p0 p1 p2 p3 tol =
     (isFlat p0 p1 p2 p3 tol \<or>
      (let m01 = mid_pt p0 p1;
           m12 = mid_pt p1 p2;
           m23 = mid_pt p2 p3;
           m012 = mid_pt m01 m12;
           m123 = mid_pt m12 m23;
           mid = mid_pt m012 m123
       in flatWithin d p0 m01 m012 mid tol \<and> flatWithin d mid m123 m23 p3 tol))"

text \<open>
  The normalisation of an angle difference in the words of the specification: the
  representative of \<open>d\<close> modulo \<open>2\<pi>\<close> in the half-open interval \<open>(-\<pi>, \<pi>]\<close>.
\<close>

definition spec_normalize :: "real \<Rightarrow> real" where
  "spec_normalize d = d - 2 * pi * of_int \<lceil>(d - pi) / (2 * pi)\<rceil>"

text \<open>What the two normalising loops of the source leave of a difference \<open>d\<close> of two angles.\<close>

definition wrapped :: "real \<Rightarrow> real" where
  "wrapped d = (if pi < d then d - 2 * pi else if d < - pi then d + 2 * pi else d)"

text \<open>The running lower and upper bound of \<^verbatim>\<open>bbox\<close> along one axis.\<close>

definition lower :: "number \<Rightarrow> number \<Rightarrow> number" where
  "lower m x = (if x < m then x else m)"

definition upper :: "number \<Rightarrow> number \<Rightarrow> number" where
  "upper m x = (if x > m then x else m)"

text \<open>A point both of whose coordinates are finite numbers.\<close>

definition finitePt :: "Pt \<Rightarrow> bool" where
  "finitePt p = (isFinite (fst p) \<and> isFinite (snd p))"

text \<open>The shoelace sum over the reals, with the summand of the source's loop.\<close>

definition edgeTerm :: "real \<times> real \<Rightarrow> real \<times> real \<Rightarrow> real" where
  "edgeTerm a b = (fst b - fst a) * (snd b + snd a)"

definition rshoelace :: "(real \<times> real) list \<Rightarrow> real" where
  "rshoelace rs = (\<Sum>i = 0 ..< length rs. edgeTerm (rs ! i) (rs ! ((i + 1) mod length rs)))"

text \<open>
  The degenerate outcomes of \<^verbatim>\<open>offsetSvgPath\<close>: \<^verbatim>\<open>svgToPoints\<close> returns \<^verbatim>\<open>null\<close> or fewer than
  three points, or the offset engine returns fewer than three points.
\<close>

definition degenerate ::
  "string \<Rightarrow> number \<Rightarrow> number \<Rightarrow> number \<Rightarrow> number \<Rightarrow> number \<Rightarrow> bool"
where
  "degenerate pathData offsetAmt joinType endType miterLimit arcTolerance =
     (svgToPoints pathData SCALE FLATTEN_TOLERANCE = Some None
      \<or> (\<exists>pts. svgToPoints pathData SCALE FLATTEN_TOLERANCE = Some (Some pts)
            \<and> (length pts < 3
               \<or> (\<exists>r. offsetPolygon pts (offsetAmt * SCALE) (joinTypeOf joinType)
                          (endTypeOf endType) miterLimit arcTolerance = Some r
                     \<and> length r < 3))))"

section \<open>Arithmetic of finite numbers\<close>

lemma Fin_plus [simp]: "Fin a + Fin b = Fin (a + b)" by (simp add: plus_number_def)
lemma Fin_minus [simp]: "Fin a - Fin b = Fin (a - b)" by (simp add: minus_number_def)
lemma Fin_uminus [simp]: "- Fin a = Fin (- a)" by (simp add: uminus_number_def)
lemma Fin_times [simp]: "Fin a * Fin b = Fin (a * b)" by (simp add: times_number_def)
lemma Fin_divide [simp]: "b \<noteq> 0 \<Longrightarrow> Fin a / Fin b = Fin (a / b)" by (simp add: divide_number_def)
lemma Fin_abs [simp]: "\<bar>Fin a\<bar> = Fin \<bar>a\<bar>" by (simp add: abs_number_def)
lemma Fin_less [simp]: "Fin a < Fin b \<longleftrightarrow> a < b" by (simp add: less_number_def)
lemma Fin_le [simp]: "Fin a \<le> Fin b \<longleftrightarrow> a \<le> b" by (simp add: less_eq_number_def)

lemma le_zero_not_pos: "(x::number) \<le> Fin 0 \<Longrightarrow> \<not> x > Fin 0"
  by (cases x) (simp_all add: less_number_def less_eq_number_def)

lemma offsetDir_sgn: "a \<noteq> 0 \<Longrightarrow> offsetDir (Fin a) = Fin (sgn a)"
  by (simp add: offsetDir_def sgn_if)

lemma len_Fin: "len (Fin x, Fin y) = Fin (sqrt (x * x + y * y))"
proof -
  have "\<not> x * x + y * y < 0" by (simp add: not_less)
  then show ?thesis by (simp add: len_def)
qed

lemma norm_pt_Fin:
  "norm_pt (Fin x, Fin y) =
     (if sqrt (x * x + y * y) > 1 / 10 ^ 10
      then (Fin (x / sqrt (x * x + y * y)), Fin (y / sqrt (x * x + y * y)))
      else (Fin 0, Fin 0))"
proof (cases "sqrt (x * x + y * y) > 1 / 10 ^ 10")
  case True
  then have "sqrt (x * x + y * y) \<noteq> 0" by auto
  with True show ?thesis by (simp add: norm_pt_def len_Fin Let_def)
next
  case False
  then show ?thesis by (simp add: norm_pt_def len_Fin Let_def)
qed

lemma NaN_arith [simp]:
  "NaN + x = NaN" "x + NaN = NaN" "NaN - x = NaN" "x - NaN = NaN"
  "NaN * x = NaN" "x * NaN = NaN" "NaN / x = NaN" "x / NaN = NaN"
  "\<not> NaN < x" "\<not> x < NaN" "\<not> NaN \<le> x" "\<not> x \<le> NaN"
  "- NaN = NaN" "\<bar>NaN\<bar> = NaN"
  by (cases x; simp add: plus_number_def minus_number_def times_number_def divide_number_def
        less_number_def less_eq_number_def uminus_number_def abs_number_def)+

section \<open>Corners\<close>



text \<open>
  C4. At a convex corner, that is when the test \<^verbatim>\<open>cr * offsetDir > 0\<close> holds and \<open>|cr| < 1e-6\<close>
  does not, the miter join pushes the single (rounded) bisector point
  \<open>v + bisect * (offset / cross(e1, bisect))\<close> exactly when the bisector denominator is more
  than \<open>1e-6\<close> from zero and the distance of that point from the vertex is at most
  \<open>miterLimit * |offset|\<close>; otherwise it pushes the two bevel points \<open>v + outN1 * offset\<close> and
  \<open>v + outN2 * offset\<close>. The distance is the one the source measures: the bisector is a unit
  vector, and the distance along it is \<open>|offset / cross(e1, bisect)|\<close>.
\<close>

theorem miter_join:
  fixes prev cur "next" :: Pt and offsetAmt :: number
  defines "e1 \<equiv> norm_pt (sub_pt cur prev)"
  defines "e2 \<equiv> norm_pt (sub_pt next cur)"
  defines "outN1 \<equiv> leftNormal e1"
  defines "outN2 \<equiv> leftNormal e2"
  defines "bisect \<equiv> norm_pt (add_pt outN1 outN2)"
  defines "mdist \<equiv> offsetAmt / cross e1 bisect"
  assumes convex: "cross e1 e2 * offsetDir offsetAmt > Fin 0"
    and nondeg: "\<not> \<bar>cross e1 e2\<bar> < eps6"
  shows "offsetVertex prev cur next offsetAmt Miter miterLimit arcTolerance result =
     Some (if \<bar>cross e1 bisect\<bar> > eps6 \<and> \<bar>mdist\<bar> \<le> miterLimit * \<bar>offsetAmt\<bar>
           then result @ [pointAlong cur bisect mdist]
           else result @ [pointAlong cur outN1 offsetAmt, pointAlong cur outN2 offsetAmt])"
  using convex nondeg
  unfolding offsetVertex_def e1_def e2_def outN1_def outN2_def bisect_def mdist_def Let_def
    bevelJoin_def
  by simp

text \<open>
  Two corners at the vertex \<open>(1, 0)\<close> with the offset 4, where the miter distance is 5: with
  the miter limit 2 the bisector point is pushed, with the miter limit 1 the two bevel
  points are.
\<close>

lemma sqrt_625: "sqrt 625 = 25"
  by (rule real_sqrt_unique) simp_all

lemma sqrt_64_25: "sqrt (64 / 25) = 8 / 5"
  by (rule real_sqrt_unique) (simp_all add: power2_eq_square)

theorem miter_join_witness:
  "offsetVertex (Fin 0, Fin 0) (Fin 1, Fin 0) (Fin 8, Fin 24) (Fin 4) Miter (Fin 2) (Fin (1 / 4)) [] =
     Some [(Fin (- 2), Fin 4)]"
  using miter_join [of "(Fin 1, Fin 0)" "(Fin 0, Fin 0)" "(Fin 8, Fin 24)" "Fin 4" "Fin 2" "Fin (1 / 4)" "[]"]
  by (simp add: norm_pt_Fin sub_pt_def add_pt_def leftNormal_def cross_def offsetDir_def eps6_def
        pointAlong_def sqrt_625 sqrt_64_25)

lemma miter_limit_exceeded:
  "offsetVertex (Fin 0, Fin 0) (Fin 1, Fin 0) (Fin 8, Fin 24) (Fin 4) Miter (Fin 1) (Fin (1 / 4)) [] =
     Some [(Fin 1, Fin 4), (Fin (- 3), Fin 1)]"
  by (simp add: offsetVertex_def bevelJoin_def Let_def norm_pt_Fin sub_pt_def add_pt_def
        leftNormal_def cross_def offsetDir_def eps6_def pointAlong_def sqrt_625 sqrt_64_25)

section \<open>The orchestrator and the rounding of the output\<close>

text \<open>
  C1. When the offset amount is not finite, or smaller than 0.001 in absolute value,
  \<^verbatim>\<open>offsetSvgPath\<close> returns the path data it was given.
\<close>

theorem offsetSvgPath_identity:
  assumes "\<not> isFinite offsetAmt \<or> \<bar>offsetAmt\<bar> < Fin (1 / 1000)"
  shows "offsetSvgPath pathData offsetAmt joinType endType miterLimit arcTolerance originX originY
           = Some pathData"
  using assms unfolding offsetSvgPath_def by simp

theorem offsetSvgPath_identity_witness:
  "offsetSvgPath ''M 0 0 L 9 0 L 9 9 Z'' (Fin 0) (Fin 2) (Fin 0) (Fin 2) (Fin (1 / 4)) None None
     = Some ''M 0 0 L 9 0 L 9 9 Z''"
  using offsetSvgPath_identity [of "Fin 0" "''M 0 0 L 9 0 L 9 9 Z''" "Fin 2" "Fin 0" "Fin 2" "Fin (1 / 4)" None None]
  by simp

lemma isRounded_round [simp]: "isRounded (Math_round x)"
  by (cases x) (simp_all add: isRounded_def)

lemma isRounded_Fin: "isRounded (Fin x) \<longleftrightarrow> x \<in> \<int>"
proof
  assume "isRounded (Fin x)"
  then have "of_int \<lfloor>x + 1 / 2\<rfloor> = x" by (simp add: isRounded_def)
  then show "x \<in> \<int>" by (metis Ints_of_int)
next
  assume "x \<in> \<int>"
  then obtain k where "x = of_int k" by (auto elim: Ints_cases)
  then show "isRounded (Fin x)" by (simp add: isRounded_def)
qed

lemma isRounded_add: "isRounded a \<Longrightarrow> isRounded b \<Longrightarrow> isRounded (a + b)"
proof (cases a; cases b)
  fix x y assume ab: "a = Fin x" "b = Fin y" and r: "isRounded a" "isRounded b"
  then have "x + y \<in> \<int>" by (simp add: isRounded_Fin)
  then show "isRounded (a + b)" by (simp add: ab isRounded_Fin)
qed (simp_all add: isRounded_def plus_number_def)

lemma roundedPt_pointAlong [simp]: "roundedPt (pointAlong c d s)"
  by (simp add: roundedPt_def pointAlong_def)

lemma roundedPt_arcPoint [simp]: "roundedPt (arcPoint x0 y0 a1 st off i)"
  by (simp add: roundedPt_def arcPoint_def Let_def)

lemma arcLoop_rounded:
  assumes "arcLoop x0 y0 a1 st off steps i result = Some r" and "list_all roundedPt result"
  shows "list_all roundedPt r"
proof -
  have "list_all roundedPt result \<longrightarrow> list_all roundedPt r"
    by (rule arcLoop.raw_induct[where P = "\<lambda>_ _ _ _ _ _ _ result r.
          list_all roundedPt result \<longrightarrow> list_all roundedPt r", OF _ assms(1)])
       (auto split: if_splits)
  with assms(2) show ?thesis by simp
qed

lemma addRoundJoin_rounded:
  "addRoundJoin x0 y0 n1 n2 off tol result = Some r \<Longrightarrow> list_all roundedPt result
     \<Longrightarrow> list_all roundedPt r"
  unfolding addRoundJoin_def Let_def
  by (auto split: option.splits dest: arcLoop_rounded)

lemma offsetVertex_rounded:
  "offsetVertex prev cur nxt off jt ml tol result = Some r \<Longrightarrow> list_all roundedPt result
     \<Longrightarrow> list_all roundedPt r"
  unfolding offsetVertex_def Let_def bevelJoin_def
  by (auto split: if_splits JoinType.splits dest: addRoundJoin_rounded)

lemma forEach_invariant:
  assumes "\<And>i s s'. body i s = Some s' \<Longrightarrow> P s \<Longrightarrow> P s'"
  shows "forEach body is s = Some s' \<Longrightarrow> P s \<Longrightarrow> P s'"
proof (induction "is" arbitrary: s)
  case Nil
  then show ?case by simp
next
  case (Cons i "is")
  from Cons.prems(1) obtain s1 where b: "body i s = Some s1" and r: "forEach body is s1 = Some s'"
    by (auto simp: bind_eq_Some_conv)
  from assms[OF b Cons.prems(2)] Cons.IH[OF r] show ?case by blast
qed

lemma vertexLoop_rounded:
  "vertexLoop pts off jt et ml tol result = Some r \<Longrightarrow> list_all roundedPt result
     \<Longrightarrow> list_all roundedPt r"
  unfolding vertexLoop_def Let_def
  by (erule forEach_invariant[rotated]) (auto dest: offsetVertex_rounded)

lemma startCap_rounded:
  "startCap pts off et tol result = Some r \<Longrightarrow> list_all roundedPt result
     \<Longrightarrow> list_all roundedPt r"
  unfolding startCap_def Let_def
  by (auto split: if_splits dest: addRoundJoin_rounded simp: roundedPt_def)

lemma endCap_rounded:
  "endCap pts off et tol result = Some r \<Longrightarrow> list_all roundedPt result
     \<Longrightarrow> list_all roundedPt r"
  unfolding endCap_def Let_def
  by (auto split: if_splits dest: addRoundJoin_rounded simp: roundedPt_def)

lemma offsetPolygon_rounded:
  assumes "offsetPolygon pts off jt et ml tol = Some r"
  shows "list_all roundedPt r"
proof (cases "length pts < 3")
  case True
  with assms show ?thesis by (simp add: offsetPolygon_def)
next
  case False
  with assms obtain r1 where v: "vertexLoop pts off jt et ml tol [] = Some r1"
    and rest: "(if isOpen et \<and> length pts \<ge> 2
                then Option.bind (startCap pts off et tol r1) (endCap pts off et tol)
                else Some r1) = Some r"
    by (auto simp: offsetPolygon_def Let_def bind_eq_Some_conv)
  have r1: "list_all roundedPt r1" using vertexLoop_rounded[OF v] by simp
  show ?thesis
  proof (cases "isOpen et \<and> length pts \<ge> 2")
    case True
    with rest obtain r2 where s: "startCap pts off et tol r1 = Some r2"
      and e: "endCap pts off et tol r2 = Some r"
      by (auto simp: bind_eq_Some_conv)
    from endCap_rounded[OF e startCap_rounded[OF s r1]] show ?thesis .
  next
    case False
    with rest r1 show ?thesis by auto
  qed
qed

lemma anchorDelta_rounded [simp]: "isRounded (anchorDelta a b c d origin)"
  by (cases origin) (simp_all add: anchorDelta_def isRounded_Fin)

lemma anchorTranslate_rounded:
  "list_all roundedPt offsetPts \<Longrightarrow> list_all roundedPt (anchorTranslate pts offsetPts ox oy)"
  unfolding anchorTranslate_def Let_def
  by (auto simp: list_all_iff roundedPt_def intro!: isRounded_add)

lemma upt4: "[0 ..< 4] = [0, 1, 2, 3]"
  by (simp add: upt_rec)

lemma upt3: "[0 ..< 3] = [0, 1, 2]"
  by (simp add: upt_rec)

lemma square_offset:
  "offsetPolygon [(Fin 0, Fin 0), (Fin 2, Fin 0), (Fin 2, Fin 2), (Fin 0, Fin 2)] (Fin 1) Bevel
     Polygon (Fin 2) (Fin (1 / 4)) =
   Some [(Fin 1, Fin 0), (Fin 0, Fin 1), (Fin 2, Fin 1), (Fin 1, Fin 0),
         (Fin 1, Fin 2), (Fin 2, Fin 1), (Fin 0, Fin 1), (Fin 1, Fin 2)]"
  by (simp add: offsetPolygon_def vertexLoop_def loopCount_def isOpen_def upt4 offsetVertex_def
      norm_pt_Fin sub_pt_def add_pt_def leftNormal_def cross_def offsetDir_def eps6_def
      pointAlong_def bevelJoin_def len_Fin Let_def)

lemma isRounded_iff: "isRounded c \<longleftrightarrow> integerOrNonFinite c"
  by (cases c) (simp_all add: isRounded_Fin integerOrNonFinite_def, simp_all add: isRounded_def)

lemma roundedPt_iff: "roundedPt p \<longleftrightarrow> roundedCoords p"
  by (simp add: roundedPt_def roundedCoords_def isRounded_iff)

text \<open>
  C10 (as amended). Every coordinate of every point of the list \<^verbatim>\<open>offsetPolygon\<close> returns
  has gone through \<^verbatim>\<open>Math.round\<close>: it is an integer, or it is \<open>NaN\<close> or infinite, which
  \<^verbatim>\<open>Math.round\<close> hands on. The anchor translation adds to it a shift that is again the
  result of \<^verbatim>\<open>Math.round\<close> (or 0), and the sum of two such numbers is one: the serializer
  receives points whose coordinates are integers, \<open>NaN\<close> or infinite.
\<close>

theorem offsetPolygon_points_rounded:
  assumes "offsetPolygon pts offsetAmt joinType endType miterLimit arcTolerance = Some offsetPts"
  shows "list_all roundedCoords offsetPts
     \<and> list_all roundedCoords (anchorTranslate pts offsetPts originX originY)"
  using offsetPolygon_rounded[OF assms] anchorTranslate_rounded[of offsetPts pts originX originY]
  by (simp add: list_all_iff roundedPt_iff)

theorem offsetPolygon_points_rounded_witness:
  "list_all roundedCoords
     [(Fin 1, Fin 0), (Fin 0, Fin 1), (Fin 2, Fin 1), (Fin 1, Fin 0),
      (Fin 1, Fin 2), (Fin 2, Fin 1), (Fin 0, Fin 1), (Fin 1, Fin 2)]
   \<and> list_all roundedCoords
     (anchorTranslate [(Fin 0, Fin 0), (Fin 2, Fin 0), (Fin 2, Fin 2), (Fin 0, Fin 2)]
        [(Fin 1, Fin 0), (Fin 0, Fin 1), (Fin 2, Fin 1), (Fin 1, Fin 0),
         (Fin 1, Fin 2), (Fin 2, Fin 1), (Fin 0, Fin 1), (Fin 1, Fin 2)]
        (Some (Fin (1 / 2))) (Some (Fin 1)))"
  by (rule offsetPolygon_points_rounded[OF square_offset])

lemma forEach_append:
  "forEach body (xs @ ys) s = Option.bind (forEach body xs s) (forEach body ys)"
proof (induction xs arbitrary: s)
  case Nil
  show ?case by simp
next
  case (Cons x xs)
  show ?case by (cases "body x s") (simp_all add: Cons.IH)
qed

lemma forEach_single: "forEach body [i] s = body i s"
  by (cases "body i s") simp_all

lemma forEach_cong:
  "(\<And>i. i \<in> set xs \<Longrightarrow> f i = g i) \<Longrightarrow> forEach f xs s = forEach g xs s"
proof (induction xs arbitrary: s)
  case Nil
  show ?case by simp
next
  case (Cons x xs)
  then show ?case by (cases "g x s") simp_all
qed

lemma isOpen_iff: "isOpen et \<longleftrightarrow> et \<in> {Butt, EndType.Square, EndType.Round}"
  by (simp add: isOpen_def)

text \<open>
  The vertex loop unfolded. On a polygon of \<open>n \<ge> 3\<close> points it handles the vertices
  \<open>0, \<dots>, n - 2\<close> for the open end kinds and \<open>0, \<dots>, n - 1\<close> for \<open>Polygon\<close> and \<open>Joined\<close>.
  Vertex 0 is handled with the last point as its predecessor, for every end kind.
\<close>

lemma vertexLoop_unfold:
  assumes "3 \<le> length pts"
  shows "vertexLoop pts offsetAmt joinType endType miterLimit arcTolerance result =
     Option.bind
       (offsetVertex (last pts) (pts ! 0) (pts ! 1) offsetAmt joinType miterLimit arcTolerance result)
       (\<lambda>r. Option.bind
          (forEach (\<lambda>i. offsetVertex (pts ! (i - 1)) (pts ! i) (pts ! (i + 1))
                       offsetAmt joinType miterLimit arcTolerance)
             [1 ..< length pts - 1] r)
          (\<lambda>r. if endType \<in> {Butt, EndType.Square, EndType.Round} then Some r
                else offsetVertex (pts ! (length pts - 2)) (pts ! (length pts - 1)) (pts ! 0)
                       offsetAmt joinType miterLimit arcTolerance r))"
proof -
  let ?n = "length pts"
  let ?body = "\<lambda>i. offsetVertex (pts ! ((i + ?n - 1) mod ?n)) (pts ! i) (pts ! ((i + 1) mod ?n))
                 offsetAmt joinType miterLimit arcTolerance"
  let ?mid = "\<lambda>i. offsetVertex (pts ! (i - 1)) (pts ! i) (pts ! (i + 1))
                 offsetAmt joinType miterLimit arcTolerance"
  have first: "?body 0 = offsetVertex (last pts) (pts ! 0) (pts ! 1)
                 offsetAmt joinType miterLimit arcTolerance"
  proof -
    have "pts \<noteq> []" using assms by auto
    then show ?thesis using assms by (simp add: last_conv_nth)
  qed
  have mid: "forEach ?body [1 ..< ?n - 1] s = forEach ?mid [1 ..< ?n - 1] s" for s
  proof (rule forEach_cong)
    fix i assume "i \<in> set [1 ..< ?n - 1]"
    then have i: "1 \<le> i" "i < ?n - 1" by simp_all
    then have "(i + ?n - 1) mod ?n = i - 1" "(i + 1) mod ?n = i + 1"
      using assms by (auto simp add: mod_if)
    then show "?body i = ?mid i" by simp
  qed
  have lastv: "?body (?n - 1) = offsetVertex (pts ! (?n - 2)) (pts ! (?n - 1)) (pts ! 0)
                 offsetAmt joinType miterLimit arcTolerance"
  proof -
    have "(?n - 1 + ?n - 1) mod ?n = ?n - 2" using assms by (simp add: mod_if)
    moreover have "(?n - 1 + 1) mod ?n = 0"
    proof -
      have "?n - 1 + 1 = ?n" using assms by simp
      then show ?thesis by simp
    qed
    ultimately show ?thesis by simp
  qed
  have open_range: "[0 ..< ?n - 1] = 0 # [1 ..< ?n - 1]"
    using assms by (simp add: upt_rec)
  have closed_range: "[0 ..< ?n] = (0 # [1 ..< ?n - 1]) @ [?n - 1]"
  proof -
    obtain m where m: "?n = Suc m" using assms by (cases "?n") simp_all
    have "[0 ..< Suc m] = [0 ..< m] @ [m]" by (rule upt_Suc_append) simp
    then have "[0 ..< ?n] = [0 ..< ?n - 1] @ [?n - 1]" by (simp only: m diff_Suc_1)
    then show ?thesis by (simp only: open_range)
  qed
  have mid': "forEach ?body [1 ..< ?n - 1] = forEach ?mid [1 ..< ?n - 1]"
    by (rule ext) (rule mid)
  let ?F = "offsetVertex (last pts) (pts ! 0) (pts ! 1) offsetAmt joinType miterLimit arcTolerance"
  let ?L = "offsetVertex (pts ! (?n - 2)) (pts ! (?n - 1)) (pts ! 0)
              offsetAmt joinType miterLimit arcTolerance"
  show ?thesis
  proof (cases "isOpen endType")
    case True
    have "vertexLoop pts offsetAmt joinType endType miterLimit arcTolerance result =
        forEach ?body (0 # [1 ..< ?n - 1]) result"
      by (simp only: vertexLoop_def Let_def loopCount_def True if_True open_range)
    also have "\<dots> = Option.bind (?F result) (forEach ?mid [1 ..< ?n - 1])"
      by (simp only: forEach.simps first mid')
    also have "\<dots> = Option.bind (?F result)
        (\<lambda>r. Option.bind (forEach ?mid [1 ..< ?n - 1] r) Some)"
      by (simp only: bind_runit)
    finally show ?thesis using True by (simp only: isOpen_iff if_True)
  next
    case False
    have "vertexLoop pts offsetAmt joinType endType miterLimit arcTolerance result =
        forEach ?body ((0 # [1 ..< ?n - 1]) @ [?n - 1]) result"
      by (simp only: vertexLoop_def Let_def loopCount_def False if_False closed_range)
    also have "\<dots> = Option.bind (forEach ?body (0 # [1 ..< ?n - 1]) result)
        (forEach ?body [?n - 1])"
      by (rule forEach_append)
    also have "\<dots> = Option.bind (Option.bind (?F result) (forEach ?mid [1 ..< ?n - 1])) ?L"
    proof -
      have "forEach ?body [?n - 1] = ?L"
        by (rule ext) (simp only: forEach_single lastv)
      then show ?thesis by (simp only: forEach.simps first mid')
    qed
    also have "\<dots> = Option.bind (?F result)
        (\<lambda>r. Option.bind (forEach ?mid [1 ..< ?n - 1] r) ?L)"
      by (simp only: bind_assoc)
    finally show ?thesis using False by (simp only: isOpen_iff if_False)
  qed
qed

lemma sqrt_9: "sqrt 9 = 3"
  by (rule real_sqrt_unique) simp_all

lemma sqrt_16: "sqrt 16 = 4"
  by (rule real_sqrt_unique) simp_all

lemma sqrt_25: "sqrt 25 = 5"
  by (rule real_sqrt_unique) simp_all

lemma sqrt_64: "sqrt 64 = 8"
  by (rule real_sqrt_unique) simp_all

lemma sqrt_thousands:
  "sqrt 9000000 = 3000" "sqrt 16000000 = 4000" "sqrt 25000000 = 5000" "sqrt 64000000 = 8000"
  by (rule real_sqrt_unique, simp, simp)+

lemmas eval_vertex = offsetPolygon_def vertexLoop_def loopCount_def isOpen_def offsetVertex_def
  norm_pt_Fin sub_pt_def add_pt_def leftNormal_def cross_def offsetDir_def eps6_def
  pointAlong_def bevelJoin_def len_Fin Let_def startCap_def endCap_def
  sqrt_9 sqrt_16 sqrt_25 sqrt_64 sqrt_thousands

lemma vertexLoop_unfold_example:
  "vertexLoop [(Fin 0, Fin 0), (Fin 4, Fin 0), (Fin 4, Fin 3), (Fin 0, Fin 3)] (Fin 1) Bevel
     Butt (Fin 2) (Fin (1 / 4)) [] =
   Some [(Fin 1, Fin 0), (Fin 0, Fin 1), (Fin 4, Fin 1), (Fin 3, Fin 0),
         (Fin 3, Fin 3), (Fin 4, Fin 2)]"
  using vertexLoop_unfold [of "[(Fin 0, Fin 0), (Fin 4, Fin 0), (Fin 4, Fin 3), (Fin 0, Fin 3)]"
      "Fin 1" Bevel Butt "Fin 2" "Fin (1 / 4)" "[]"]
  by (simp add: eval_vertex upt_rec)

lemma first_join_closing_edge:
  "offsetVertex (Fin 0, Fin 3000) (Fin 0, Fin 0) (Fin 4000, Fin 0) (Fin 1000) Bevel (Fin 2)
     (Fin (1 / 4)) [] = Some [(Fin 1000, Fin 0), (Fin 0, Fin 1000)]"
  by (simp add: eval_vertex)

text \<open>
  C8. The loop handles all \<open>n\<close> vertices for \<open>Polygon\<close> and \<open>Joined\<close>, and \<open>n - 1\<close> vertices
  for the open end kinds, as the claim says; but those are the vertices \<open>0, \<dots>, n - 2\<close>, not
  the interior ones. Vertex 0, an end of the open path, is joined to the last point, its
  predecessor in the closed polygon, so the edge from the last point back to the first
  shapes the first join, although the start cap of the same function takes the first
  point for a free end. The two butt-ended paths below, \<^verbatim>\<open>M 0 0 L 4 0 L 4 3 L 0 3\<close> and
  \<^verbatim>\<open>M 0 0 L 4 0 L 4 3 L -4 3\<close> in scaled points with the offset 1, differ only in how far
  the last point lies along the last edge: their interior corners are the same, and the
  first point pushed differs.
\<close>

theorem open_path_joins_closing_edge:
  "offsetPolygon [(Fin 0, Fin 0), (Fin 4000, Fin 0), (Fin 4000, Fin 3000), (Fin 0, Fin 3000)]
     (Fin 1000) Bevel Butt (Fin 2) (Fin (1 / 4)) =
   Some [(Fin 1000, Fin 0), (Fin 0, Fin 1000), (Fin 4000, Fin 1000), (Fin 3000, Fin 0),
         (Fin 3000, Fin 3000), (Fin 4000, Fin 2000)]
   \<and> offsetPolygon [(Fin 0, Fin 0), (Fin 4000, Fin 0), (Fin 4000, Fin 3000), (Fin (- 4000), Fin 3000)]
     (Fin 1000) Bevel Butt (Fin 2) (Fin (1 / 4)) =
   Some [(Fin 600, Fin 800), (Fin 0, Fin 1000), (Fin 4000, Fin 1000), (Fin 3000, Fin 0),
         (Fin 3000, Fin 3000), (Fin 4000, Fin 2000)]"
  by (simp add: eval_vertex upt3)

section \<open>Flattening\<close>

lemma Math_max_Fin [simp]: "Math_max (Fin a) (Fin b) = Fin (max a b)"
  by (simp add: max_def)

text \<open>A call of \<^verbatim>\<open>flattenCubic\<close> that returns has appended to \<open>out\<close>, and appends the same to any list.\<close>

lemma flattenCubic_appends:
  assumes "flattenCubic p0 p1 p2 p3 tol out = Some r"
  shows "\<exists>xs. r = out @ xs \<and> (\<forall>out'. flattenCubic p0 p1 p2 p3 tol out' = Some (out' @ xs))"
proof (rule flattenCubic.raw_induct[where P = "\<lambda>p0 p1 p2 p3 tol out r.
    \<exists>xs. r = out @ xs \<and> (\<forall>out'. flattenCubic p0 p1 p2 p3 tol out' = Some (out' @ xs))", OF _ assms])
  fix f :: "Pt \<Rightarrow> Pt \<Rightarrow> Pt \<Rightarrow> Pt \<Rightarrow> number \<Rightarrow> Pt list \<Rightarrow> Pt list option"
    and p0 p1 p2 p3 tol out r
  assume IH: "\<And>p0 p1 p2 p3 tol out r. f p0 p1 p2 p3 tol out = Some r \<Longrightarrow>
      \<exists>xs. r = out @ xs \<and> (\<forall>out'. flattenCubic p0 p1 p2 p3 tol out' = Some (out' @ xs))"
    and step: "(if isFlat p0 p1 p2 p3 tol then Some (out @ [p3])
         else let m01 = mid_pt p0 p1; m12 = mid_pt p1 p2; m23 = mid_pt p2 p3;
                  m012 = mid_pt m01 m12; m123 = mid_pt m12 m23; mid = mid_pt m012 m123
              in Option.bind (f p0 m01 m012 mid tol out) (f mid m123 m23 p3 tol)) = Some r"
  show "\<exists>xs. r = out @ xs \<and> (\<forall>out'. flattenCubic p0 p1 p2 p3 tol out' = Some (out' @ xs))"
  proof (cases "isFlat p0 p1 p2 p3 tol")
    case True
    with step have "r = out @ [p3]" by simp
    moreover have "\<forall>out'. flattenCubic p0 p1 p2 p3 tol out' = Some (out' @ [p3])"
      using True by (subst flattenCubic.simps) simp
    ultimately show ?thesis by blast
  next
    case False
    let ?m01 = "mid_pt p0 p1" and ?m12 = "mid_pt p1 p2" and ?m23 = "mid_pt p2 p3"
    let ?m012 = "mid_pt ?m01 ?m12" and ?m123 = "mid_pt ?m12 ?m23"
    let ?mid = "mid_pt ?m012 ?m123"
    from step False obtain r1 where
      l: "f p0 ?m01 ?m012 ?mid tol out = Some r1" and rr: "f ?mid ?m123 ?m23 p3 tol r1 = Some r"
      by (auto simp: Let_def bind_eq_Some_conv)
    from IH[OF l] obtain xs where xs: "r1 = out @ xs"
      "\<And>out'. flattenCubic p0 ?m01 ?m012 ?mid tol out' = Some (out' @ xs)" by blast
    from IH[OF rr] obtain ys where ys: "r = r1 @ ys"
      "\<And>out'. flattenCubic ?mid ?m123 ?m23 p3 tol out' = Some (out' @ ys)" by blast
    have "\<forall>out'. flattenCubic p0 p1 p2 p3 tol out' = Some (out' @ (xs @ ys))"
      using False by (subst flattenCubic.simps) (simp add: Let_def xs(2) ys(2))
    moreover have "r = out @ (xs @ ys)" using xs(1) ys(1) by simp
    ultimately show ?thesis by blast
  qed
qed

lemma flattenCubic_frame:
  "flattenCubic p0 p1 p2 p3 tol out =
     (case flattenCubic p0 p1 p2 p3 tol [] of None \<Rightarrow> None | Some xs \<Rightarrow> Some (out @ xs))"
proof (cases "flattenCubic p0 p1 p2 p3 tol []")
  case None
  show ?thesis
  proof (cases "flattenCubic p0 p1 p2 p3 tol out")
    case None
    with \<open>flattenCubic p0 p1 p2 p3 tol [] = None\<close> show ?thesis by simp
  next
    case (Some r)
    from flattenCubic_appends[OF this] have "\<exists>r'. flattenCubic p0 p1 p2 p3 tol [] = Some r'"
      by blast
    with None show ?thesis by simp
  qed
next
  case (Some xs)
  from flattenCubic_appends[OF this] show ?thesis by (auto simp: Some)
qed

lemma flattenCubic_unfold:
  "flattenCubic p0 p1 p2 p3 tol out =
     (if isFlat p0 p1 p2 p3 tol then Some (out @ [p3])
      else
        (case flattenCubic p0 (mid_pt p0 p1) (mid_pt (mid_pt p0 p1) (mid_pt p1 p2))
                (mid_pt (mid_pt (mid_pt p0 p1) (mid_pt p1 p2))
                        (mid_pt (mid_pt p1 p2) (mid_pt p2 p3))) tol [] of
           None \<Rightarrow> None
         | Some L \<Rightarrow>
             (case flattenCubic (mid_pt (mid_pt (mid_pt p0 p1) (mid_pt p1 p2))
                                        (mid_pt (mid_pt p1 p2) (mid_pt p2 p3)))
                     (mid_pt (mid_pt p1 p2) (mid_pt p2 p3)) (mid_pt p2 p3) p3 tol [] of
                None \<Rightarrow> None
              | Some R \<Rightarrow> Some (out @ L @ R))))"
proof -
  let ?m01 = "mid_pt p0 p1" and ?m12 = "mid_pt p1 p2" and ?m23 = "mid_pt p2 p3"
  let ?m012 = "mid_pt ?m01 ?m12" and ?m123 = "mid_pt ?m12 ?m23"
  let ?mid = "mid_pt ?m012 ?m123"
  have "flattenCubic p0 p1 p2 p3 tol out =
     (if isFlat p0 p1 p2 p3 tol then Some (out @ [p3])
      else Option.bind (flattenCubic p0 ?m01 ?m012 ?mid tol out)
             (\<lambda>o1. flattenCubic ?mid ?m123 ?m23 p3 tol o1))"
    by (subst flattenCubic.simps) (simp add: Let_def)
  also have "Option.bind (flattenCubic p0 ?m01 ?m012 ?mid tol out)
             (\<lambda>o1. flattenCubic ?mid ?m123 ?m23 p3 tol o1) =
     (case flattenCubic p0 ?m01 ?m012 ?mid tol [] of None \<Rightarrow> None
      | Some L \<Rightarrow> (case flattenCubic ?mid ?m123 ?m23 p3 tol [] of None \<Rightarrow> None
                    | Some R \<Rightarrow> Some (out @ L @ R)))"
    by (subst flattenCubic_frame[of p0 ?m01 ?m012 ?mid tol out],
        cases "flattenCubic p0 ?m01 ?m012 ?mid tol []", simp, simp,
        subst flattenCubic_frame[of ?mid ?m123 ?m23 p3 tol], simp split: option.splits)
  finally show ?thesis .
qed

text \<open>
  A cubic whose subdivision passes the flatness test at depth at most \<open>d\<close> on every branch:
  the call returns, having appended at most \<open>2\<^sup>d\<close> points, the last of them \<open>p3\<close>.
\<close>

lemma flatWithin_returns:
  "flatWithin d p0 p1 p2 p3 tol \<Longrightarrow>
     \<exists>pts. (\<forall>out. flattenCubic p0 p1 p2 p3 tol out = Some (out @ pts))
        \<and> pts \<noteq> [] \<and> last pts = p3 \<and> length pts \<le> 2 ^ d"
proof (induction d arbitrary: p0 p1 p2 p3)
  case 0
  then have "\<forall>out. flattenCubic p0 p1 p2 p3 tol out = Some (out @ [p3])"
    by (subst flattenCubic.simps) simp
  then show ?case by (intro exI[of _ "[p3]"]) simp
next
  case (Suc d)
  show ?case
  proof (cases "isFlat p0 p1 p2 p3 tol")
    case True
    then have "\<forall>out. flattenCubic p0 p1 p2 p3 tol out = Some (out @ [p3])"
      by (subst flattenCubic.simps) simp
    then show ?thesis by (intro exI[of _ "[p3]"]) simp
  next
    case False
    let ?m01 = "mid_pt p0 p1" and ?m12 = "mid_pt p1 p2" and ?m23 = "mid_pt p2 p3"
    let ?m012 = "mid_pt ?m01 ?m12" and ?m123 = "mid_pt ?m12 ?m23"
    let ?mid = "mid_pt ?m012 ?m123"
    from Suc.prems False have
      l: "flatWithin d p0 ?m01 ?m012 ?mid tol" and r: "flatWithin d ?mid ?m123 ?m23 p3 tol"
      by (simp_all add: Let_def)
    from Suc.IH[OF l] obtain L where
      L: "\<And>out. flattenCubic p0 ?m01 ?m012 ?mid tol out = Some (out @ L)" "length L \<le> 2 ^ d"
      by blast
    from Suc.IH[OF r] obtain R where
      R: "\<And>out. flattenCubic ?mid ?m123 ?m23 p3 tol out = Some (out @ R)"
         "R \<noteq> []" "last R = p3" "length R \<le> 2 ^ d"
      by blast
    have "\<forall>out. flattenCubic p0 p1 p2 p3 tol out = Some (out @ (L @ R))"
      using False by (subst flattenCubic.simps) (simp add: Let_def L(1) R(1))
    moreover have "L @ R \<noteq> []" "last (L @ R) = p3" "length (L @ R) \<le> 2 ^ Suc d"
      using L(2) R(2,3,4) by simp_all
    ultimately show ?thesis by blast
  qed
qed

text \<open>
  C6. The flatness test of \<^verbatim>\<open>flattenCubic\<close> compares the larger of \<open>|3 p1 - 2 p0 - p3|\<^sup>2\<close> and
  \<open>|3 p2 - 2 p3 - p0|\<^sup>2\<close> with \<open>16 tol\<^sup>2\<close>, each computed as the source computes it. When it
  holds the call appends the end point \<open>p3\<close> alone; otherwise it appends what the call on
  the left half appends, followed by what the call on the right half appends, the halves
  being those of the subdivision at the midpoints. No branch appends \<open>p0\<close>.
  \<^verbatim>\<open>flattenQuadratic\<close> is \<^verbatim>\<open>flattenCubic\<close> on the control points \<open>p0 + 2/3 (p1 - p0)\<close> and
  \<open>p2 + 2/3 (p1 - p2)\<close>. The call returns whenever the test holds at some bounded depth on
  every branch, and its last point is then \<open>p3\<close>.
\<close>

theorem flattenCubic_subdivision:
  fixes p0 p1 p2 p3 q0 q1 q2 :: Pt and tol :: number
  defines "ux \<equiv> Fin 3 * fst p1 - Fin 2 * fst p0 - fst p3"
  defines "uy \<equiv> Fin 3 * snd p1 - Fin 2 * snd p0 - snd p3"
  defines "vx \<equiv> Fin 3 * fst p2 - Fin 2 * fst p3 - fst p0"
  defines "vy \<equiv> Fin 3 * snd p2 - Fin 2 * snd p3 - snd p0"
  defines "flat \<equiv> Math_max (ux * ux + uy * uy) (vx * vx + vy * vy) \<le> Fin 16 * tol * tol"
  defines "m01 \<equiv> mid_pt p0 p1"
  defines "m12 \<equiv> mid_pt p1 p2"
  defines "m23 \<equiv> mid_pt p2 p3"
  defines "m012 \<equiv> mid_pt m01 m12"
  defines "m123 \<equiv> mid_pt m12 m23"
  defines "mid \<equiv> mid_pt m012 m123"
  shows "flattenCubic p0 p1 p2 p3 tol out =
      (if flat then Some (out @ [p3])
       else (case flattenCubic p0 m01 m012 mid tol [] of
               None \<Rightarrow> None
             | Some L \<Rightarrow>
                 (case flattenCubic mid m123 m23 p3 tol [] of
                    None \<Rightarrow> None
                  | Some R \<Rightarrow> Some (out @ L @ R))))
    \<and> flattenQuadratic q0 q1 q2 tol out =
        flattenCubic q0
          (fst q0 + Fin 2 / Fin 3 * (fst q1 - fst q0), snd q0 + Fin 2 / Fin 3 * (snd q1 - snd q0))
          (fst q2 + Fin 2 / Fin 3 * (fst q1 - fst q2), snd q2 + Fin 2 / Fin 3 * (snd q1 - snd q2))
          q2 tol out
    \<and> (\<forall>d. flatWithin d p0 p1 p2 p3 tol \<longrightarrow>
          (\<exists>pts. flattenCubic p0 p1 p2 p3 tol out = Some (out @ pts)
             \<and> pts \<noteq> [] \<and> last pts = p3 \<and> length pts \<le> 2 ^ d))"
proof -
  have f: "flat = isFlat p0 p1 p2 p3 tol"
    by (simp add: flat_def isFlat_def ux_def uy_def vx_def vy_def Let_def)
  have a: "flattenCubic p0 p1 p2 p3 tol out =
      (if flat then Some (out @ [p3])
       else (case flattenCubic p0 m01 m012 mid tol [] of
               None \<Rightarrow> None
             | Some L \<Rightarrow>
                 (case flattenCubic mid m123 m23 p3 tol [] of
                    None \<Rightarrow> None
                  | Some R \<Rightarrow> Some (out @ L @ R))))"
    unfolding f m01_def m12_def m23_def m012_def m123_def mid_def by (rule flattenCubic_unfold)
  have b: "flattenQuadratic q0 q1 q2 tol out =
        flattenCubic q0
          (fst q0 + Fin 2 / Fin 3 * (fst q1 - fst q0), snd q0 + Fin 2 / Fin 3 * (snd q1 - snd q0))
          (fst q2 + Fin 2 / Fin 3 * (fst q1 - fst q2), snd q2 + Fin 2 / Fin 3 * (snd q1 - snd q2))
          q2 tol out"
    by (simp add: flattenQuadratic_def Let_def)
  have c: "\<exists>pts. flattenCubic p0 p1 p2 p3 tol out = Some (out @ pts)
             \<and> pts \<noteq> [] \<and> last pts = p3 \<and> length pts \<le> 2 ^ d"
    if "flatWithin d p0 p1 p2 p3 tol" for d
    using flatWithin_returns[OF that] by blast
  from a b c show ?thesis by blast
qed

text \<open>
  The cubic from \<open>(0, 0)\<close> to \<open>(3, 0)\<close> with the control points \<open>(1, 1)\<close> and \<open>(2, 1)\<close>, at the
  tolerance of the source: the test fails on the cubic and on its two halves and holds on
  the four quarters.
\<close>

lemma flat_example:
  "\<not> isFlat (Fin 0, Fin 0) (Fin 1, Fin 1) (Fin 2, Fin 1) (Fin 3, Fin 0) FLATTEN_TOLERANCE"
  "flatWithin 2 (Fin 0, Fin 0) (Fin 1, Fin 1) (Fin 2, Fin 1) (Fin 3, Fin 0) FLATTEN_TOLERANCE"
  by (simp_all add: numeral_2_eq_2 isFlat_def mid_pt_def FLATTEN_TOLERANCE_def Let_def)

theorem flattenCubic_subdivision_witness:
  "\<exists>pts. flattenCubic (Fin 0, Fin 0) (Fin 1, Fin 1) (Fin 2, Fin 1) (Fin 3, Fin 0)
            FLATTEN_TOLERANCE [] = Some pts
     \<and> pts \<noteq> [] \<and> last pts = (Fin 3, Fin 0) \<and> length pts \<le> 4"
  using flattenCubic_subdivision [where ?p0.0 = "(Fin 0, Fin 0)" and ?p1.0 = "(Fin 1, Fin 1)"
      and ?p2.0 = "(Fin 2, Fin 1)" and ?p3.0 = "(Fin 3, Fin 0)" and tol = FLATTEN_TOLERANCE
      and out = "[]" and ?q0.0 = "(Fin 0, Fin 0)" and ?q1.0 = "(Fin 0, Fin 0)"
      and ?q2.0 = "(Fin 0, Fin 0)", THEN conjunct2, THEN conjunct2, rule_format, of 2]
    flat_example(2)
  by simp

lemma flatten_example:
  "flattenCubic (Fin 0, Fin 0) (Fin 1, Fin 1) (Fin 2, Fin 1) (Fin 3, Fin 0) FLATTEN_TOLERANCE [] =
     Some [(Fin (3 / 4), Fin (9 / 16)), (Fin (3 / 2), Fin (3 / 4)), (Fin (9 / 4), Fin (9 / 16)),
           (Fin 3, Fin 0)]"
  by (simp add: flattenCubic_unfold isFlat_def mid_pt_def FLATTEN_TOLERANCE_def Let_def)

section \<open>Round joins\<close>

lemma atan2_bounds: "- pi < atan2 y x \<and> atan2 y x \<le> pi"
proof -
  have a: "- (pi / 2) < arctan (y / x)" "arctan (y / x) < pi / 2"
    by (rule arctan_lbound, rule arctan_ubound)
  have p: "0 < pi" by simp
  consider "0 < x" | "x < 0" "0 \<le> y" | "x < 0" "y < 0" | "x = 0"
    by linarith
  then show ?thesis
  proof cases
    case 1
    then have "atan2 y x = arctan (y / x)" by (simp add: atan2_def)
    then show ?thesis using a p by linarith
  next
    case 2
    then have "y / x \<le> 0" by (simp add: divide_nonneg_neg)
    then have "arctan (y / x) \<le> 0" using arctan_le_zero_iff by blast
    moreover have "atan2 y x = arctan (y / x) + pi" using 2 by (simp add: atan2_def)
    ultimately show ?thesis using a p by linarith
  next
    case 3
    then have "0 < y / x" by (simp add: divide_neg_neg)
    then have "0 < arctan (y / x)" using zero_less_arctan_iff by blast
    moreover have "atan2 y x = arctan (y / x) - pi" using 3 by (simp add: atan2_def)
    ultimately show ?thesis using a p by linarith
  next
    case 4
    then have "atan2 y x = pi / 2 \<or> atan2 y x = - (pi / 2) \<or> atan2 y x = 0"
      by (simp add: atan2_def)
    then show ?thesis using p by linarith
  qed
qed

lemma wrapDown_fin:
  assumes "d < 3 * pi"
  shows "wrapDown (Fin d) = Some (Fin (if pi < d then d - 2 * pi else d))"
proof (cases "pi < d")
  case True
  then have "\<not> pi < d - 2 * pi" using assms by simp
  then have "wrapDown (Fin (d - 2 * pi)) = Some (Fin (d - 2 * pi))"
    by (subst wrapDown.simps) (simp add: Math_PI_def)
  with True show ?thesis
    by (subst wrapDown.simps) (simp add: Math_PI_def)
next
  case False
  then show ?thesis by (subst wrapDown.simps) (simp add: Math_PI_def)
qed

lemma wrapUp_fin:
  assumes "- 3 * pi < d"
  shows "wrapUp (Fin d) = Some (Fin (if d < - pi then d + 2 * pi else d))"
proof (cases "d < - pi")
  case True
  then have "\<not> d + 2 * pi < - pi" using assms by simp
  then have "wrapUp (Fin (d + 2 * pi)) = Some (Fin (d + 2 * pi))"
    by (subst wrapUp.simps) (simp add: Math_PI_def)
  with True show ?thesis
    by (subst wrapUp.simps) (simp add: Math_PI_def)
next
  case False
  then show ?thesis by (subst wrapUp.simps) (simp add: Math_PI_def)
qed

lemma arcSweep_fin:
  "arcSweep (Fin n1x, Fin n1y) (Fin n2x, Fin n2y)
     = Some (Fin (wrapped (atan2 n2y n2x - atan2 n1y n1x)))"
proof -
  let ?d = "atan2 n2y n2x - atan2 n1y n1x"
  have b: "- 2 * pi < ?d" "?d < 2 * pi"
    using atan2_bounds[of n2y n2x] atan2_bounds[of n1y n1x] by linarith+
  have p: "0 < pi" by simp
  have 1: "wrapDown (Fin ?d) = Some (Fin (if pi < ?d then ?d - 2 * pi else ?d))"
    using b p by (intro wrapDown_fin) linarith
  have 2: "wrapUp (Fin (if pi < ?d then ?d - 2 * pi else ?d)) = Some (Fin (wrapped ?d))"
  proof (cases "pi < ?d")
    case True
    then have "- 3 * pi < ?d - 2 * pi" "\<not> ?d - 2 * pi < - pi" using p by linarith+
    with True show ?thesis using wrapUp_fin[of "?d - 2 * pi"] by (simp add: wrapped_def)
  next
    case False
    have "- 3 * pi < ?d" using b p by linarith
    with False show ?thesis using wrapUp_fin[of ?d] by (simp add: wrapped_def)
  qed
  show ?thesis
    unfolding arcSweep_def Let_def by (simp add: 1 2)
qed

lemma arcLoop_fin:
  "i \<le> s + 1 \<Longrightarrow>
   arcLoop x0 y0 a1 st off (Fin (real s)) i result
     = Some (result @ map (arcPoint x0 y0 a1 st off) [i ..< s + 1])"
proof (induction "s + 1 - i" arbitrary: i result)
  case 0
  then have "i = s + 1" by simp
  then show ?case by (subst arcLoop.simps) simp
next
  case (Suc k)
  then have le: "i \<le> s" by simp
  have "k = s + 1 - Suc i" using Suc.hyps(2) by simp
  from Suc.hyps(1)[OF this] le
  have "arcLoop x0 y0 a1 st off (Fin (real s)) (Suc i) (result @ [arcPoint x0 y0 a1 st off i])
     = Some ((result @ [arcPoint x0 y0 a1 st off i]) @ map (arcPoint x0 y0 a1 st off) [Suc i ..< s + 1])"
    by simp
  with le show ?case by (subst arcLoop.simps) (simp add: upt_conv_Cons del: upt.simps)
qed

text \<open>
  The two normalising loops, on the tests of the source. A call that returns has left the
  sweep where neither test holds; a sweep at which neither test holds is returned as it
  is.
\<close>

lemma wrapDown_exit:
  assumes "wrapDown d = Some r"
  shows "\<not> Math_PI < r"
  by (rule wrapDown.raw_induct[where P = "\<lambda>d r. \<not> Math_PI < r", OF _ assms])
     (auto split: if_splits)

lemma wrapUp_keeps: "d < - Math_PI \<Longrightarrow> \<not> Math_PI < d + Fin 2 * Math_PI"
  by (cases d) (simp_all add: Math_PI_def plus_number_def less_number_def uminus_number_def)

lemma wrapUp_exit:
  assumes "wrapUp d = Some r"
  shows "\<not> r < - Math_PI \<and> (\<not> Math_PI < d \<longrightarrow> \<not> Math_PI < r)"
  by (rule wrapUp.raw_induct[where P = "\<lambda>d r. \<not> r < - Math_PI \<and> (\<not> Math_PI < d \<longrightarrow> \<not> Math_PI < r)",
        OF _ assms])
     (auto split: if_splits dest: wrapUp_keeps)

lemma wrapDown_id: "\<not> Math_PI < d \<Longrightarrow> wrapDown d = Some d"
  by (subst wrapDown.simps) simp

lemma wrapUp_id: "\<not> d < - Math_PI \<Longrightarrow> wrapUp d = Some d"
  by (subst wrapUp.simps) simp

lemma arcLoop_NaN: "arcLoop x0 y0 a1 st off NaN i result = Some result"
  by (subst arcLoop.simps) simp

lemma Fin_le_PosInf [simp]: "Fin a \<le> PosInf"
  by (simp add: less_eq_number_def)

lemma arcLoop_PosInf: "arcLoop x0 y0 a1 st off PosInf i result = None"
proof (cases "arcLoop x0 y0 a1 st off PosInf i result")
  case None
  then show ?thesis .
next
  case (Some r)
  have "PosInf \<noteq> PosInf"
    by (rule arcLoop.raw_induct[where P = "\<lambda>_ _ _ _ _ steps _ _ _. steps \<noteq> PosInf", OF _ Some])
       (auto split: if_splits)
  then show ?thesis by simp
qed

lemma Math_max_two:
  assumes "Math_max (Fin 2) x = Fin (real k)"
  shows "2 \<le> k"
proof (cases x)
  case (Fin y)
  with assms have "max 2 y = real k" by (simp del: Math_max.simps)
  then have "2 \<le> real k" by linarith
  then show ?thesis by simp
next
  case NegInf
  with assms have "real k = 2" by (simp add: less_number_def)
  then show ?thesis by simp
qed (use assms in \<open>simp_all add: less_number_def\<close>)

text \<open>Over the reals, the point at the angle \<open>a\<close> before rounding is at the distance \<open>|off|\<close>.\<close>

lemma on_circle: "sqrt ((cos a * off) * (cos a * off) + (sin a * off) * (sin a * off)) = \<bar>off\<bar>"
proof -
  have one: "cos a * cos a + sin a * sin a = 1"
    using sin_cos_squared_add2[of a] by (simp add: power2_eq_square)
  have "(cos a * off) * (cos a * off) + (sin a * off) * (sin a * off)
      = (cos a * cos a + sin a * sin a) * (off * off)"
    by algebra
  also have "\<dots> = off * off" by (simp only: one mult_1)
  finally show ?thesis by simp
qed

text \<open>
  C7 (as amended). Let \<open>a1\<close> and \<open>a2\<close> be the angles \<^verbatim>\<open>Math.atan2\<close> gives for the two normals and
  \<open>da\<close> what the two loops leave of \<open>a2 - a1\<close>. The loops bring the sweep into the closed
  interval from \<open>-\<pi>\<close> to \<open>\<pi>\<close>: on return neither \<open>da > \<pi>\<close> nor \<open>da < -\<pi>\<close> holds, and a
  difference at which neither holds, \<open>-\<pi>\<close> among them, is left as it is. When
  \<open>steps = max(2, ceil(|da| / (2 acos(1 - arcTolerance / |offset|))))\<close> is a number \<open>k\<close> of
  steps (\<open>k\<close> is then at least 2), \<^verbatim>\<open>addRoundJoin\<close> appends exactly \<open>k + 1\<close> points, and point
  \<open>i\<close> is the rounding of the point at the angle \<open>a1 + (da / steps) i\<close> and the distance
  \<open>offset\<close> from the corner: \<open>(cx + cos a * offset, cy + sin a * offset)\<close>, which over the
  reals lies on the circle of radius \<open>|offset|\<close> about the corner. The array the
  points go to holds fewer than \<open>2\<^sup>3\<^sup>2\<close> elements. When \<open>steps\<close> is \<open>NaN\<close>, as for an arc
  tolerance above \<open>2 |offset|\<close>, the call appends nothing; when \<open>steps\<close> is infinite, as for the
  arc tolerance 0 and a sweep other than 0, it does not return.
\<close>

theorem addRoundJoin_arc:
  fixes x0 y0 offsetAmt arcTolerance da :: number and n1 n2 :: Pt
  defines "a1 \<equiv> Math_atan2 (snd n1) (fst n1)"
  defines "a2 \<equiv> Math_atan2 (snd n2) (fst n2)"
  defines "steps \<equiv> Math_max (Fin 2)
    (Math_ceil (\<bar>da\<bar> / (Fin 2 * Math_acos (Fin 1 - arcTolerance / \<bar>offsetAmt\<bar>))))"
  assumes sweep: "arcSweep n1 n2 = Some da"
  shows "\<not> Math_PI < da \<and> \<not> da < - Math_PI
     \<and> (\<not> Math_PI < a2 - a1 \<and> \<not> a2 - a1 < - Math_PI \<longrightarrow> da = a2 - a1)
     \<and> (\<forall>k. steps = Fin (real k) \<and> length result + k + 1 < 2 ^ 32 \<longrightarrow>
           2 \<le> k
           \<and> addRoundJoin x0 y0 n1 n2 offsetAmt arcTolerance result =
               Some (result @
                 map (\<lambda>i. (Math_round (x0 + Math_cos (a1 + da / steps * Fin (real i)) * offsetAmt),
                            Math_round (y0 + Math_sin (a1 + da / steps * Fin (real i)) * offsetAmt)))
                   [0 ..< k + 1]))
     \<and> (steps = NaN \<longrightarrow> addRoundJoin x0 y0 n1 n2 offsetAmt arcTolerance result = Some result)
     \<and> (steps = PosInf \<longrightarrow> addRoundJoin x0 y0 n1 n2 offsetAmt arcTolerance result = None)
     \<and> (\<forall>a r. sqrt ((cos a * r) * (cos a * r) + (sin a * r) * (sin a * r)) = \<bar>r\<bar>)"
proof -
  from sweep obtain r where r: "wrapDown (a2 - a1) = Some r" and u: "wrapUp r = Some da"
    by (auto simp: arcSweep_def Let_def a1_def a2_def bind_eq_Some_conv)
  have range: "\<not> Math_PI < da \<and> \<not> da < - Math_PI"
    using wrapDown_exit[OF r] wrapUp_exit[OF u] by simp
  have same: "da = a2 - a1" if "\<not> Math_PI < a2 - a1 \<and> \<not> a2 - a1 < - Math_PI"
  proof -
    from that r have "r = a2 - a1" by (simp add: wrapDown_id)
    with that u show ?thesis by (simp add: wrapUp_id)
  qed
  have st: "arcSteps da offsetAmt arcTolerance = steps"
    by (simp add: arcSteps_def steps_def Let_def)
  have call: "addRoundJoin x0 y0 n1 n2 offsetAmt arcTolerance result =
      arcLoop x0 y0 a1 (da / steps) offsetAmt steps 0 result"
    by (simp add: addRoundJoin_def Let_def sweep st a1_def)
  have pts: "2 \<le> k
           \<and> addRoundJoin x0 y0 n1 n2 offsetAmt arcTolerance result =
               Some (result @
                 map (\<lambda>i. (Math_round (x0 + Math_cos (a1 + da / steps * Fin (real i)) * offsetAmt),
                            Math_round (y0 + Math_sin (a1 + da / steps * Fin (real i)) * offsetAmt)))
                   [0 ..< k + 1])"
    if k: "steps = Fin (real k) \<and> length result + k + 1 < 2 ^ 32" for k
  proof -
    from k have "Math_max (Fin 2)
        (Math_ceil (\<bar>da\<bar> / (Fin 2 * Math_acos (Fin 1 - arcTolerance / \<bar>offsetAmt\<bar>)))) = Fin (real k)"
      unfolding steps_def by simp
    then have "2 \<le> k" by (rule Math_max_two)
    moreover have "arcLoop x0 y0 a1 (da / steps) offsetAmt (Fin (real k)) 0 result =
        Some (result @ map (arcPoint x0 y0 a1 (da / steps) offsetAmt) [0 ..< k + 1])"
      by (rule arcLoop_fin) simp
    ultimately show ?thesis
      unfolding call using k by (simp add: arcPoint_def[abs_def] Let_def)
  qed
  have none: "addRoundJoin x0 y0 n1 n2 offsetAmt arcTolerance result = Some result"
    if "steps = NaN"
    unfolding call that by (rule arcLoop_NaN)
  have never: "addRoundJoin x0 y0 n1 n2 offsetAmt arcTolerance result = None"
    if "steps = PosInf"
    unfolding call that by (rule arcLoop_PosInf)
  from range same pts none never on_circle show ?thesis by blast
qed

lemma spec_normalize_range: "- pi < spec_normalize d \<and> spec_normalize d \<le> pi"
proof -
  let ?k = "\<lceil>(d - pi) / (2 * pi)\<rceil>"
  have p: "0 < 2 * pi" by simp
  have up: "d - pi \<le> of_int ?k * (2 * pi)"
    by (rule pos_divide_le_eq[THEN iffD1, OF p le_of_int_ceiling])
  have "of_int ?k - 1 < (d - pi) / (2 * pi)" by linarith
  then have lo: "(of_int ?k - 1) * (2 * pi) < d - pi"
    by (rule pos_less_divide_eq[THEN iffD1, OF p])
  show ?thesis using up lo by (simp add: spec_normalize_def algebra_simps)
qed

lemma atan2_up: "atan2 1 0 = pi / 2"
  by (simp add: atan2_def)

lemma atan2_down: "atan2 (- 1) 0 = - (pi / 2)"
  by (simp add: atan2_def)

text \<open>
  C7 as stated fails on the interval: for the normals \<open>(0, 1)\<close> and \<open>(0, -1)\<close>, those of the
  round cap at the start of a path that sets out in the negative \<open>x\<close> direction, the
  difference of the angles is \<open>-\<pi>\<close>. The loops leave it at \<open>-\<pi>\<close>; its representative in
  \<open>(-\<pi>, \<pi>]\<close> is \<open>\<pi>\<close>, which sweeps the arc through the opposite side.
\<close>

theorem arcSweep_interval_counterexample:
  "arcSweep (Fin 0, Fin 1) (Fin 0, Fin (- 1))
     \<noteq> Some (Fin (spec_normalize (atan2 (- 1) 0 - atan2 1 0)))"
proof -
  have c: "arcSweep (Fin 0, Fin 1) (Fin 0, Fin (- 1)) = Some (Fin (- pi))"
    by (simp add: arcSweep_fin atan2_up atan2_down wrapped_def)
  have "\<lceil>(- pi - pi) / (2 * pi)\<rceil> = - 1"
  proof -
    have "(- pi - pi) / (2 * pi) = - 1" by simp
    moreover have "\<lceil>- 1 :: real\<rceil> = - 1" by (intro ceiling_unique) simp_all
    ultimately show ?thesis by simp
  qed
  then have s: "spec_normalize (atan2 (- 1) 0 - atan2 1 0) = pi"
    by (simp add: atan2_up atan2_down spec_normalize_def)
  show ?thesis unfolding c s by simp
qed

lemma half_turn_sweep: "arcSweep (Fin 0, Fin 1) (Fin 0, Fin (- 1)) = Some (Fin (- pi))"
  by (simp add: arcSweep_fin atan2_up atan2_down wrapped_def)

lemma half_turn_steps:
  "Math_max (Fin 2) (Math_ceil (\<bar>Fin (- pi)\<bar> / (Fin 2 * Math_acos (Fin 1 - Fin 1 / \<bar>Fin 1\<bar>))))
     = Fin (real 2)"
  by simp

theorem addRoundJoin_arc_witness:
  "addRoundJoin (Fin 0) (Fin 0) (Fin 0, Fin 1) (Fin 0, Fin (- 1)) (Fin 1) (Fin 1) []
     = Some [(Fin 0, Fin 1), (Fin 1, Fin 0), (Fin 0, Fin (- 1))]"
  using addRoundJoin_arc [OF half_turn_sweep, where offsetAmt = "Fin 1" and arcTolerance = "Fin 1"
      and ?x0.0 = "Fin 0" and ?y0.0 = "Fin 0" and result = "[]",
      THEN conjunct2, THEN conjunct2, THEN conjunct2, THEN conjunct1, rule_format, of 2]
    half_turn_steps
  by (simp add: atan2_up upt_rec)

section \<open>Anchor translation\<close>

lemma add_zero_number [simp]: "(x::number) + Fin 0 = x"
  by (cases x) (simp_all add: plus_number_def)

lemma shift_less: "(x + Fin d < m + Fin d) = (x < m)" for x m :: number
  by (cases x; cases m) (simp_all add: plus_number_def less_number_def)

text \<open>The four bounds of \<^verbatim>\<open>bbox\<close> are independent folds.\<close>

lemma bboxStep_fields:
  "minX (bboxStep b p) = lower (minX b) (fst p)"
  "minY (bboxStep b p) = lower (minY b) (snd p)"
  "maxX (bboxStep b p) = upper (maxX b) (fst p)"
  "maxY (bboxStep b p) = upper (maxY b) (snd p)"
  by (simp_all add: bboxStep_def lower_def upper_def Let_def)

lemma bbox_fold_fields:
  "minX (foldl bboxStep b ps) = foldl lower (minX b) (map fst ps)"
  "minY (foldl bboxStep b ps) = foldl lower (minY b) (map snd ps)"
  "maxX (foldl bboxStep b ps) = foldl upper (maxX b) (map fst ps)"
  "maxY (foldl bboxStep b ps) = foldl upper (maxY b) (map snd ps)"
  by (induction ps arbitrary: b) (simp_all add: bboxStep_fields)

lemma lower_shift: "foldl lower (m + Fin d) (map (\<lambda>x. x + Fin d) xs) = foldl lower m xs + Fin d"
proof (induction xs arbitrary: m)
  case Nil
  show ?case by simp
next
  case (Cons x xs)
  have "lower (m + Fin d) (x + Fin d) = lower m x + Fin d"
    by (simp add: lower_def shift_less)
  then show ?case by (simp add: Cons.IH)
qed

lemma upper_shift: "foldl upper (m + Fin d) (map (\<lambda>x. x + Fin d) xs) = foldl upper m xs + Fin d"
proof (induction xs arbitrary: m)
  case Nil
  show ?case by simp
next
  case (Cons x xs)
  have "upper (m + Fin d) (x + Fin d) = upper m x + Fin d"
    by (simp add: upper_def shift_less)
  then show ?case by (simp add: Cons.IH)
qed

lemma bbox_shift_x:
  "minX (bbox (map (\<lambda>p. (fst p + Fin d, g p)) ps)) = minX (bbox ps) + Fin d"
  "maxX (bbox (map (\<lambda>p. (fst p + Fin d, g p)) ps)) = maxX (bbox ps) + Fin d"
proof -
  have m: "map fst (map (\<lambda>p. (fst p + Fin d, g p)) ps) = map (\<lambda>x. x + Fin d) (map fst ps)"
    by (simp add: comp_def)
  have "foldl lower PosInf (map (\<lambda>x. x + Fin d) (map fst ps)) = foldl lower PosInf (map fst ps) + Fin d"
    using lower_shift[of PosInf d "map fst ps"] by (simp add: plus_number_def)
  then show "minX (bbox (map (\<lambda>p. (fst p + Fin d, g p)) ps)) = minX (bbox ps) + Fin d"
    by (simp only: bbox_def bbox_fold_fields m) simp
  have "foldl upper NegInf (map (\<lambda>x. x + Fin d) (map fst ps)) = foldl upper NegInf (map fst ps) + Fin d"
    using upper_shift[of NegInf d "map fst ps"] by (simp add: plus_number_def)
  then show "maxX (bbox (map (\<lambda>p. (fst p + Fin d, g p)) ps)) = maxX (bbox ps) + Fin d"
    by (simp only: bbox_def bbox_fold_fields m) simp
qed

lemma bbox_shift_y:
  "minY (bbox (map (\<lambda>p. (g p, snd p + Fin d)) ps)) = minY (bbox ps) + Fin d"
  "maxY (bbox (map (\<lambda>p. (g p, snd p + Fin d)) ps)) = maxY (bbox ps) + Fin d"
proof -
  have m: "map snd (map (\<lambda>p. (g p, snd p + Fin d)) ps) = map (\<lambda>x. x + Fin d) (map snd ps)"
    by (simp add: comp_def)
  have "foldl lower PosInf (map (\<lambda>x. x + Fin d) (map snd ps)) = foldl lower PosInf (map snd ps) + Fin d"
    using lower_shift[of PosInf d "map snd ps"] by (simp add: plus_number_def)
  then show "minY (bbox (map (\<lambda>p. (g p, snd p + Fin d)) ps)) = minY (bbox ps) + Fin d"
    by (simp only: bbox_def bbox_fold_fields m) simp
  have "foldl upper NegInf (map (\<lambda>x. x + Fin d) (map snd ps)) = foldl upper NegInf (map snd ps) + Fin d"
    using upper_shift[of NegInf d "map snd ps"] by (simp add: plus_number_def)
  then show "maxY (bbox (map (\<lambda>p. (g p, snd p + Fin d)) ps)) = maxY (bbox ps) + Fin d"
    by (simp only: bbox_def bbox_fold_fields m) simp
qed

lemma anchorTranslate_map:
  "anchorTranslate pts offsetPts originX originY =
     map (\<lambda>p. (fst p + anchorDelta (minX (bbox pts)) (maxX (bbox pts))
                          (minX (bbox offsetPts)) (maxX (bbox offsetPts)) originX,
                snd p + anchorDelta (minY (bbox pts)) (maxY (bbox pts))
                          (minY (bbox offsetPts)) (maxY (bbox offsetPts)) originY))
       offsetPts"
proof (cases "originX \<noteq> None \<or> originY \<noteq> None")
  case True
  then show ?thesis
    by (auto simp add: anchorTranslate_def Let_def map_idI)
next
  case False
  then show ?thesis
    by (simp add: anchorTranslate_def anchorDelta_def map_idI)
qed

lemma round_error: "\<bar>x - of_int \<lfloor>x + 1 / 2\<rfloor>\<bar> \<le> 1 / 2" for x :: real
  by linarith

lemma anchor_fixed:
  assumes "lo = Fin a0" "hi = Fin a1" "lo' = Fin c0" "hi' = Fin c1"
  shows "\<exists>u v. anchorAt lo hi (Fin fr) = Fin u
     \<and> anchorAt (lo' + anchorDelta lo hi lo' hi' (Some (Fin fr)))
                 (hi' + anchorDelta lo hi lo' hi' (Some (Fin fr))) (Fin fr) = Fin v
     \<and> \<bar>u - v\<bar> \<le> 1 / 2"
proof -
  let ?A = "a0 + (a1 - a0) * fr" and ?B = "c0 + (c1 - c0) * fr"
  let ?d = "real_of_int \<lfloor>?A - ?B + 1 / 2\<rfloor>"
  have d: "anchorDelta lo hi lo' hi' (Some (Fin fr)) = Fin ?d"
    by (simp add: anchorDelta_def anchorAt_def assms)
  have u: "anchorAt lo hi (Fin fr) = Fin ?A" by (simp add: anchorAt_def assms)
  have v: "anchorAt (lo' + Fin ?d) (hi' + Fin ?d) (Fin fr) = Fin (?B + ?d)"
    by (simp add: anchorAt_def assms algebra_simps)
  have "\<bar>?A - (?B + ?d)\<bar> \<le> 1 / 2" using round_error[of "?A - ?B"] by (simp add: algebra_simps)
  with u v show ?thesis unfolding d by blast
qed

lemma anchorDelta_fin:
  "\<exists>d. anchorDelta (Fin a0) (Fin a1) (Fin c0) (Fin c1) (Some (Fin fr)) = Fin d \<and> d \<in> \<int>"
  by (simp add: anchorDelta_def anchorAt_def)

text \<open>The box of a list of finite points that is not empty has finite bounds.\<close>

lemma lower_fold_finite:
  "isFinite m \<Longrightarrow> list_all isFinite xs \<Longrightarrow> isFinite (foldl lower m xs)"
  by (induction xs arbitrary: m) (simp_all add: lower_def)

lemma upper_fold_finite:
  "isFinite m \<Longrightarrow> list_all isFinite xs \<Longrightarrow> isFinite (foldl upper m xs)"
  by (induction xs arbitrary: m) (simp_all add: upper_def)

lemma lower_PosInf: "isFinite x \<Longrightarrow> lower PosInf x = x"
  by (cases x) (simp_all add: lower_def less_number_def)

lemma upper_NegInf: "isFinite x \<Longrightarrow> upper NegInf x = x"
  by (cases x) (simp_all add: upper_def less_number_def)

lemma bounds_finite:
  assumes "xs \<noteq> []" "list_all isFinite xs"
  shows "isFinite (foldl lower PosInf xs)" "isFinite (foldl upper NegInf xs)"
proof -
  from assms obtain x r where xs: "xs = x # r" "isFinite x" "list_all isFinite r"
    by (cases xs) auto
  show "isFinite (foldl lower PosInf xs)" "isFinite (foldl upper NegInf xs)"
    using xs by (simp_all add: lower_PosInf upper_NegInf lower_fold_finite upper_fold_finite)
qed

lemma isFinite_ex: "isFinite x \<Longrightarrow> \<exists>a. x = Fin a"
  by (cases x) simp_all

lemma smallInt_finite: "smallInt B c \<Longrightarrow> isFinite c"
  by (cases c) (simp_all add: smallInt_def)

lemma smallIntPt_finite: "list_all (smallIntPt B) ps \<Longrightarrow> list_all finitePt ps"
  by (auto simp: list_all_iff smallIntPt_def finitePt_def dest: smallInt_finite)

lemma bbox_finite:
  assumes "ps \<noteq> []" "list_all finitePt ps"
  shows "\<exists>a0 a1 b0 b1. minX (bbox ps) = Fin a0 \<and> maxX (bbox ps) = Fin a1
     \<and> minY (bbox ps) = Fin b0 \<and> maxY (bbox ps) = Fin b1"
proof -
  have x: "map fst ps \<noteq> []" "list_all isFinite (map fst ps)"
    and y: "map snd ps \<noteq> []" "list_all isFinite (map snd ps)"
    using assms by (simp_all add: list_all_iff finitePt_def)
  show ?thesis
    using bounds_finite[OF x] bounds_finite[OF y]
    by (simp add: bbox_def bbox_fold_fields isFinite_ex)
qed

lemma bbox_example_orig:
  "bbox [(Fin 0, Fin 0), (Fin 2, Fin 0), (Fin 2, Fin 2)]
     = \<lparr>minX = Fin 0, minY = Fin 0, maxX = Fin 2, maxY = Fin 2\<rparr>"
  by (simp add: bbox_def bboxStep_def Let_def less_number_def)

lemma bbox_example_off:
  "bbox [(Fin 1, Fin 1), (Fin 4, Fin 2), (Fin 2, Fin 6)]
     = \<lparr>minX = Fin 1, minY = Fin 1, maxX = Fin 4, maxY = Fin 6\<rparr>"
  by (simp add: bbox_def bboxStep_def Let_def less_number_def)

text \<open>
  C9 (as amended). When an anchor fraction is given on one of the axes and one of the two
  shifts is not 0, the translation adds the shift \<open>(dx, dy)\<close> to every output point, and it
  leaves the points as they are otherwise. The shift on an axis with an anchor fraction is
  the rounding of the difference between the anchor coordinate of the box of the input
  polygon and that of the box of the offset result; on an axis without one it is 0, which
  leaves that axis as it was. When both polygons have points, all coordinates are integers
  of absolute value at most \<open>2\<^sup>4\<^sup>0\<close> and the fraction lies between 0 and 1, the shift is an
  integer and the anchor coordinate of the box of the translated points is within 1 of the
  anchor coordinate of the original box.
\<close>

theorem anchor_shift:
  fixes pts offsetPts :: "Pt list" and originX originY :: "number option"
  defines "dx \<equiv> (case originX of
      Some fr \<Rightarrow> Math_round ((minX (bbox pts) + (maxX (bbox pts) - minX (bbox pts)) * fr)
                   - (minX (bbox offsetPts) + (maxX (bbox offsetPts) - minX (bbox offsetPts)) * fr))
    | None \<Rightarrow> Fin 0)"
  defines "dy \<equiv> (case originY of
      Some fr \<Rightarrow> Math_round ((minY (bbox pts) + (maxY (bbox pts) - minY (bbox pts)) * fr)
                   - (minY (bbox offsetPts) + (maxY (bbox offsetPts) - minY (bbox offsetPts)) * fr))
    | None \<Rightarrow> Fin 0)"
  defines "moved \<equiv> anchorTranslate pts offsetPts originX originY"
  shows "moved =
      (if (originX \<noteq> None \<or> originY \<noteq> None) \<and> (dx \<noteq> Fin 0 \<or> dy \<noteq> Fin 0)
       then map (\<lambda>p. (fst p + dx, snd p + dy)) offsetPts else offsetPts)
    \<and> (originX = None \<longrightarrow> map fst moved = map fst offsetPts)
    \<and> (originY = None \<longrightarrow> map snd moved = map snd offsetPts)
    \<and> (\<forall>fx B.
          originX = Some (Fin fx) \<and> 0 \<le> fx \<and> fx \<le> 1 \<and> B \<le> 2 ^ 40
          \<and> pts \<noteq> [] \<and> offsetPts \<noteq> []
          \<and> list_all (smallIntPt B) pts \<and> list_all (smallIntPt B) offsetPts \<longrightarrow>
          isInteger dx
          \<and> (\<exists>u v. anchorAt (minX (bbox pts)) (maxX (bbox pts)) (Fin fx) = Fin u
                \<and> anchorAt (minX (bbox moved)) (maxX (bbox moved)) (Fin fx) = Fin v
                \<and> \<bar>u - v\<bar> \<le> 1))
    \<and> (\<forall>fy B.
          originY = Some (Fin fy) \<and> 0 \<le> fy \<and> fy \<le> 1 \<and> B \<le> 2 ^ 40
          \<and> pts \<noteq> [] \<and> offsetPts \<noteq> []
          \<and> list_all (smallIntPt B) pts \<and> list_all (smallIntPt B) offsetPts \<longrightarrow>
          isInteger dy
          \<and> (\<exists>u v. anchorAt (minY (bbox pts)) (maxY (bbox pts)) (Fin fy) = Fin u
                \<and> anchorAt (minY (bbox moved)) (maxY (bbox moved)) (Fin fy) = Fin v
                \<and> \<bar>u - v\<bar> \<le> 1))"
proof -
  have dx: "dx = anchorDelta (minX (bbox pts)) (maxX (bbox pts))
                   (minX (bbox offsetPts)) (maxX (bbox offsetPts)) originX"
    by (simp add: dx_def anchorDelta_def anchorAt_def split: option.splits)
  have dy: "dy = anchorDelta (minY (bbox pts)) (maxY (bbox pts))
                   (minY (bbox offsetPts)) (maxY (bbox offsetPts)) originY"
    by (simp add: dy_def anchorDelta_def anchorAt_def split: option.splits)
  have def: "moved =
      (if (originX \<noteq> None \<or> originY \<noteq> None) \<and> (dx \<noteq> Fin 0 \<or> dy \<noteq> Fin 0)
       then map (\<lambda>p. (fst p + dx, snd p + dy)) offsetPts else offsetPts)"
    unfolding moved_def dx dy by (simp add: anchorTranslate_def Let_def)
  have mv: "moved = map (\<lambda>p. (fst p + dx, snd p + dy)) offsetPts"
    unfolding moved_def dx dy by (rule anchorTranslate_map)
  have nx: "originX = None \<Longrightarrow> map fst moved = map fst offsetPts"
    by (simp add: mv comp_def) (simp add: dx_def)
  have ny: "originY = None \<Longrightarrow> map snd moved = map snd offsetPts"
    by (simp add: mv comp_def) (simp add: dy_def)
  have fx: "isInteger dx
          \<and> (\<exists>u v. anchorAt (minX (bbox pts)) (maxX (bbox pts)) (Fin fx) = Fin u
                \<and> anchorAt (minX (bbox moved)) (maxX (bbox moved)) (Fin fx) = Fin v
                \<and> \<bar>u - v\<bar> \<le> 1)"
    if h: "originX = Some (Fin fx) \<and> 0 \<le> fx \<and> fx \<le> 1 \<and> B \<le> 2 ^ 40
          \<and> pts \<noteq> [] \<and> offsetPts \<noteq> []
          \<and> list_all (smallIntPt B) pts \<and> list_all (smallIntPt B) offsetPts"
    for fx B
  proof -
    from h obtain a0 a1 where a: "minX (bbox pts) = Fin a0" "maxX (bbox pts) = Fin a1"
      using bbox_finite[of pts] smallIntPt_finite[of B pts] by blast
    from h obtain c0 c1 where c: "minX (bbox offsetPts) = Fin c0" "maxX (bbox offsetPts) = Fin c1"
      using bbox_finite[of offsetPts] smallIntPt_finite[of B offsetPts] by blast
    have ox: "originX = Some (Fin fx)" using h by simp
    obtain d where d: "dx = Fin d" "d \<in> \<int>"
      using anchorDelta_fin[of a0 a1 c0 c1 fx] by (auto simp: dx a c ox)
    have b: "minX (bbox moved) = minX (bbox offsetPts) + dx"
            "maxX (bbox moved) = maxX (bbox offsetPts) + dx"
      unfolding mv d by (rule bbox_shift_x)+
    have "\<exists>u v. anchorAt (minX (bbox pts)) (maxX (bbox pts)) (Fin fx) = Fin u
                \<and> anchorAt (minX (bbox moved)) (maxX (bbox moved)) (Fin fx) = Fin v
                \<and> \<bar>u - v\<bar> \<le> 1 / 2"
      unfolding b dx ox by (rule anchor_fixed) (simp_all add: a c)
    then obtain u v where "anchorAt (minX (bbox pts)) (maxX (bbox pts)) (Fin fx) = Fin u"
        "anchorAt (minX (bbox moved)) (maxX (bbox moved)) (Fin fx) = Fin v" "\<bar>u - v\<bar> \<le> 1"
      by fastforce
    then show ?thesis using d by auto
  qed
  have fy: "isInteger dy
          \<and> (\<exists>u v. anchorAt (minY (bbox pts)) (maxY (bbox pts)) (Fin fy) = Fin u
                \<and> anchorAt (minY (bbox moved)) (maxY (bbox moved)) (Fin fy) = Fin v
                \<and> \<bar>u - v\<bar> \<le> 1)"
    if h: "originY = Some (Fin fy) \<and> 0 \<le> fy \<and> fy \<le> 1 \<and> B \<le> 2 ^ 40
          \<and> pts \<noteq> [] \<and> offsetPts \<noteq> []
          \<and> list_all (smallIntPt B) pts \<and> list_all (smallIntPt B) offsetPts"
    for fy B
  proof -
    from h obtain b0 b1 where a: "minY (bbox pts) = Fin b0" "maxY (bbox pts) = Fin b1"
      using bbox_finite[of pts] smallIntPt_finite[of B pts] by blast
    from h obtain d0 d1 where c: "minY (bbox offsetPts) = Fin d0" "maxY (bbox offsetPts) = Fin d1"
      using bbox_finite[of offsetPts] smallIntPt_finite[of B offsetPts] by blast
    have oy: "originY = Some (Fin fy)" using h by simp
    obtain d where d: "dy = Fin d" "d \<in> \<int>"
      using anchorDelta_fin[of b0 b1 d0 d1 fy] by (auto simp: dy a c oy)
    have b: "minY (bbox moved) = minY (bbox offsetPts) + dy"
            "maxY (bbox moved) = maxY (bbox offsetPts) + dy"
      unfolding mv d by (rule bbox_shift_y)+
    have "\<exists>u v. anchorAt (minY (bbox pts)) (maxY (bbox pts)) (Fin fy) = Fin u
                \<and> anchorAt (minY (bbox moved)) (maxY (bbox moved)) (Fin fy) = Fin v
                \<and> \<bar>u - v\<bar> \<le> 1 / 2"
      unfolding b dy oy by (rule anchor_fixed) (simp_all add: a c)
    then obtain u v where "anchorAt (minY (bbox pts)) (maxY (bbox pts)) (Fin fy) = Fin u"
        "anchorAt (minY (bbox moved)) (maxY (bbox moved)) (Fin fy) = Fin v" "\<bar>u - v\<bar> \<le> 1"
      by fastforce
    then show ?thesis using d by auto
  qed
  from def nx ny fx fy show ?thesis by blast
qed

theorem anchor_shift_witness:
  "anchorTranslate [(Fin 0, Fin 0), (Fin 2, Fin 0), (Fin 2, Fin 2)]
     [(Fin 1, Fin 1), (Fin 4, Fin 2), (Fin 2, Fin 6)] (Some (Fin (1 / 2))) (Some (Fin 1))
   = [(Fin 0, Fin (- 3)), (Fin 3, Fin (- 2)), (Fin 1, Fin 2)]
   \<and> (\<exists>u v. anchorAt (Fin 0) (Fin 2) (Fin (1 / 2)) = Fin u
          \<and> anchorAt (minX (bbox [(Fin 0, Fin (- 3)), (Fin 3, Fin (- 2)), (Fin 1, Fin 2)]))
                      (maxX (bbox [(Fin 0, Fin (- 3)), (Fin 3, Fin (- 2)), (Fin 1, Fin 2)]))
                      (Fin (1 / 2)) = Fin v
          \<and> \<bar>u - v\<bar> \<le> 1)"
proof -
  note t = anchor_shift [where pts = "[(Fin 0, Fin 0), (Fin 2, Fin 0), (Fin 2, Fin 2)]"
      and offsetPts = "[(Fin 1, Fin 1), (Fin 4, Fin 2), (Fin 2, Fin 6)]"
      and originX = "Some (Fin (1 / 2))" and originY = "Some (Fin 1)"]
  have m: "anchorTranslate [(Fin 0, Fin 0), (Fin 2, Fin 0), (Fin 2, Fin 2)]
     [(Fin 1, Fin 1), (Fin 4, Fin 2), (Fin 2, Fin 6)] (Some (Fin (1 / 2))) (Some (Fin 1))
   = [(Fin 0, Fin (- 3)), (Fin 3, Fin (- 2)), (Fin 1, Fin 2)]"
    using t[THEN conjunct1]
    by (simp add: bbox_example_orig bbox_example_off)
  from t[THEN conjunct2, THEN conjunct2, THEN conjunct2, THEN conjunct1, rule_format,
         of "1 / 2" 6]
  show ?thesis
    by (simp add: m bbox_example_orig bbox_example_off smallIntPt_def smallInt_def)
qed

section \<open>Winding\<close>

lemma finitePt_finPt [simp]: "finitePt (finPt r)"
  by (simp add: finitePt_def finPt_def)

lemma finitePt_ex: "finitePt p \<Longrightarrow> \<exists>r. p = finPt r"
  by (cases p; cases "fst p"; cases "snd p") (auto simp: finitePt_def finPt_def)

lemma finite_list_ex: "list_all finitePt ps \<Longrightarrow> \<exists>rs. ps = map finPt rs"
proof (induction ps)
  case Nil
  show ?case by simp
next
  case (Cons p ps)
  then obtain rs where "ps = map finPt rs" by auto
  moreover have "finitePt p" using Cons.prems by simp
  then obtain r where "p = finPt r" using finitePt_ex by blast
  ultimately have "p # ps = map finPt (r # rs)" by simp
  then show ?case by (rule exI[of _ "r # rs"])
qed

lemma foldl_Fin_sum:
  assumes "\<And>i. i \<in> set is \<Longrightarrow> f i = Fin (g i)"
  shows "foldl (\<lambda>area i. area + f i) (Fin s) is = Fin (s + sum_list (map g is))"
  using assms
proof (induction "is" arbitrary: s)
  case Nil
  show ?case by simp
next
  case (Cons i "is")
  have "foldl (\<lambda>area i. area + f i) (Fin s) (i # is) = foldl (\<lambda>area i. area + f i) (Fin (s + g i)) is"
    using Cons.prems[of i] by simp
  also have "\<dots> = Fin (s + g i + sum_list (map g is))"
    using Cons.prems by (intro Cons.IH) simp
  finally show ?case by (simp add: add.assoc)
qed

lemma shoelace_fin: "shoelace (map finPt rs) = Fin (rshoelace rs)"
proof -
  let ?n = "length rs"
  let ?f = "\<lambda>i. (fst (map finPt rs ! ((i + 1) mod ?n)) - fst (map finPt rs ! i))
                 * (snd (map finPt rs ! ((i + 1) mod ?n)) + snd (map finPt rs ! i))"
  have "?f i = Fin (edgeTerm (rs ! i) (rs ! ((i + 1) mod ?n)))" if "i \<in> set [0 ..< ?n]" for i
  proof -
    from that have i: "i < ?n" by simp
    then have j: "(i + 1) mod ?n < ?n" by (intro mod_less_divisor) auto
    show ?thesis using i j by (simp add: finPt_def edgeTerm_def)
  qed
  then have "foldl (\<lambda>area i. area + ?f i) (Fin 0) [0 ..< ?n]
      = Fin (0 + sum_list (map (\<lambda>i. edgeTerm (rs ! i) (rs ! ((i + 1) mod ?n))) [0 ..< ?n]))"
    by (rule foldl_Fin_sum)
  then show ?thesis
    by (simp add: shoelace_def rshoelace_def Let_def interv_sum_list_conv_sum_set_nat)
qed

lemma edgeTerm_swap: "edgeTerm b a = - edgeTerm a b"
  by (simp add: edgeTerm_def algebra_simps)

lemma rshoelace_rev: "rshoelace (rev rs) = - rshoelace rs"
proof -
  let ?n = "length rs"
  let ?phi = "\<lambda>i. ?n - 1 - ((i + 1) mod ?n)"
  have phi_lt: "?phi i < ?n" if "i < ?n" for i using that by simp
  have phi_succ: "(?phi i + 1) mod ?n = ?n - 1 - i" if "i < ?n" for i
  proof (cases "i + 1 = ?n")
    case True
    then have "(i + 1) mod ?n = 0" by simp
    then have "?phi i + 1 = ?n" using that by simp
    then have "(?phi i + 1) mod ?n = 0" by simp
    then show ?thesis using True by simp
  next
    case False
    with that have "i + 1 < ?n" by simp
    then show ?thesis by simp
  qed
  have phi_inv: "?phi (?phi i) = i" if "i < ?n" for i
    using that phi_succ[OF that] by simp
  have summand: "edgeTerm (rev rs ! i) (rev rs ! ((i + 1) mod ?n))
      = - edgeTerm (rs ! ?phi i) (rs ! ((?phi i + 1) mod ?n))" if "i < ?n" for i
  proof -
    have j: "(i + 1) mod ?n < ?n" using that by (intro mod_less_divisor) auto
    have "rev rs ! i = rs ! (?n - 1 - i)" using that by (simp add: rev_nth)
    moreover have "rev rs ! ((i + 1) mod ?n) = rs ! ?phi i" using j by (simp add: rev_nth)
    ultimately have "edgeTerm (rev rs ! i) (rev rs ! ((i + 1) mod ?n))
        = edgeTerm (rs ! ((?phi i + 1) mod ?n)) (rs ! ?phi i)"
      by (simp only: phi_succ[OF that])
    then show ?thesis by (simp only: edgeTerm_swap[of "rs ! ((?phi i + 1) mod ?n)"] minus_minus)
  qed
  have "rshoelace (rev rs) = (\<Sum>i = 0 ..< ?n. - edgeTerm (rs ! ?phi i) (rs ! ((?phi i + 1) mod ?n)))"
    unfolding rshoelace_def using summand by simp
  also have "\<dots> = (\<Sum>k = 0 ..< ?n. - edgeTerm (rs ! k) (rs ! ((k + 1) mod ?n)))"
    by (rule sum.reindex_bij_witness[where i = ?phi and j = ?phi])
       (use phi_inv phi_lt in auto)
  also have "\<dots> = - rshoelace rs"
    by (simp add: rshoelace_def sum_negf)
  finally show ?thesis .
qed

lemma fixWinding_fin:
  "shoelace (fixWinding (map finPt rs)) \<le> Fin 0"
proof (cases "0 < rshoelace rs")
  case True
  then have "fixWinding (map finPt rs) = map finPt (rev rs)"
    by (simp add: fixWinding_def shoelace_fin rev_map)
  then show ?thesis using True by (simp add: shoelace_fin rshoelace_rev)
next
  case False
  then have "fixWinding (map finPt rs) = map finPt rs"
    by (simp add: fixWinding_def shoelace_fin)
  then show ?thesis using False by (simp add: shoelace_fin)
qed

text \<open>
  C3 (as amended). When the first subpath of the parsed path flattens to at least three
  points, \<^verbatim>\<open>svgToPoints\<close> returns the scaled points, reversed exactly when the test
  \<^verbatim>\<open>area > 0\<close> on their shoelace sum holds and unchanged otherwise, in particular when the
  sum is \<open>NaN\<close>. When the scaled points are integer points of absolute value at most \<open>B\<close>
  and \<open>4 n B\<^sup>2 \<le> 2\<^sup>5\<^sup>3\<close> for their number \<open>n\<close>, so that no term and no partial sum leaves the
  integers below \<open>2\<^sup>5\<^sup>3\<close>, the shoelace sum of the returned list is at most 0.
\<close>

theorem svgToPoints_winding:
  fixes floatPts :: "Pt list" and sc :: number
  defines "scaled \<equiv> scalePts floatPts sc"
  assumes parse: "parseSvgPath pathData = Some sps" and nonempty: "sps \<noteq> []"
    and flat: "flattenSegs (segs (sps ! 0)) tol (Fin 0, Fin 0) [] = Some floatPts"
    and three: "3 \<le> length floatPts"
  shows "\<exists>pts. svgToPoints pathData sc tol = Some (Some pts)
     \<and> pts = (if shoelace scaled > Fin 0 then rev scaled else scaled)
     \<and> (\<forall>B. list_all (smallIntPt B) scaled \<and> 4 * real (length scaled) * B * B \<le> 2 ^ 53
            \<longrightarrow> shoelace pts \<le> Fin 0)"
proof -
  have r: "svgToPoints pathData sc tol = Some (Some (fixWinding scaled))"
    using parse nonempty flat three by (simp add: svgToPoints_def scaled_def)
  have le: "shoelace (fixWinding scaled) \<le> Fin 0" if small: "list_all (smallIntPt B) scaled" for B
  proof -
    have "list_all finitePt scaled" using small by (rule smallIntPt_finite)
    then obtain rs where rs: "scaled = map finPt rs"
      using finite_list_ex by blast
    show ?thesis unfolding rs by (rule fixWinding_fin)
  qed
  show ?thesis
  proof (intro exI conjI allI impI)
    show "svgToPoints pathData sc tol = Some (Some (fixWinding scaled))" by (rule r)
    show "fixWinding scaled = (if shoelace scaled > Fin 0 then rev scaled else scaled)"
      by (simp add: fixWinding_def)
    fix B
    assume "list_all (smallIntPt B) scaled \<and> 4 * real (length scaled) * B * B \<le> 2 ^ 53"
    then show "shoelace (fixWinding scaled) \<le> Fin 0" using le by blast
  qed
qed

section \<open>The empty result\<close>

lemma foldl_append_nonempty:
  "s \<noteq> [] \<Longrightarrow> foldl (\<lambda>d p. d @ f p) s ps \<noteq> []"
  by (induction ps arbitrary: s) simp_all

lemma pointsToSvg_nonempty: "pts \<noteq> [] \<Longrightarrow> pointsToSvg pts sc \<noteq> ''''"
  by (simp add: pointsToSvg_def)

lemma anchorTranslate_length [simp]:
  "length (anchorTranslate pts offsetPts ox oy) = length offsetPts"
  by (simp add: anchorTranslate_map)

lemma parse_empty: "parseSvgPath '''' = Some []"
  by (subst parseSvgPath_def, subst parseLoop.simps) (simp add: trim_def)

lemma svgToPoints_empty: "svgToPoints '''' sc tol = Some None"
  by (simp add: svgToPoints_def parse_empty)

lemma offsetSvgPath_empty_iff:
  assumes "isFinite offsetAmt" and "\<not> \<bar>offsetAmt\<bar> < Fin (1 / 1000)"
  shows "degenerate pathData offsetAmt joinType endType miterLimit arcTolerance
        \<longleftrightarrow> offsetSvgPath pathData offsetAmt joinType endType miterLimit arcTolerance
              originX originY = Some ''''"
proof -
  have ne: "3 \<le> length r \<Longrightarrow> pointsToSvg (anchorTranslate pts r originX originY) SCALE \<noteq> ''''"
    for pts r
    by (rule pointsToSvg_nonempty) (auto simp: length_0_conv[symmetric] simp del: length_0_conv)
  show ?thesis
    using assms ne
    by (auto simp add: degenerate_def offsetSvgPath_def not_less split: option.splits)
qed

text \<open>
  C2 (as amended). For a finite offset amount of absolute value at least 0.001,
  \<^verbatim>\<open>offsetSvgPath\<close> returns the empty string when \<^verbatim>\<open>svgToPoints\<close> returns \<^verbatim>\<open>null\<close> or fewer than
  three points or the offset engine returns fewer than three points, and whenever it
  returns the empty string one of these is the case. The empty path data is such an
  input.
\<close>

theorem offsetSvgPath_empty_sentinel:
  assumes "isFinite offsetAmt" and "\<not> \<bar>offsetAmt\<bar> < Fin (1 / 1000)"
  shows "(degenerate pathData offsetAmt joinType endType miterLimit arcTolerance
        \<longleftrightarrow> offsetSvgPath pathData offsetAmt joinType endType miterLimit arcTolerance
              originX originY = Some '''')
     \<and> offsetSvgPath '''' offsetAmt joinType endType miterLimit arcTolerance originX originY
           = Some ''''"
proof -
  have "offsetSvgPath '''' offsetAmt joinType endType miterLimit arcTolerance originX originY
           = Some ''''"
    using assms by (simp add: offsetSvgPath_def svgToPoints_empty)
  with offsetSvgPath_empty_iff[OF assms] show ?thesis by simp
qed

theorem offsetSvgPath_empty_sentinel_witness:
  "degenerate '''' (Fin 5) (Fin 2) (Fin 0) (Fin 2) (Fin (1 / 4))
   \<and> offsetSvgPath '''' (Fin 5) (Fin 2) (Fin 0) (Fin 2) (Fin (1 / 4)) None None = Some ''''"
  using offsetSvgPath_empty_sentinel [of "Fin 5" "''''" "Fin 2" "Fin 0" "Fin 2" "Fin (1 / 4)" None None]
  by (simp add: degenerate_def svgToPoints_empty)

text \<open>Joins other than the round one push at least one point per vertex.\<close>

lemma offsetVertex_grows:
  assumes "jt \<noteq> JoinType.Round"
  shows "\<exists>r. offsetVertex prev cur nxt off jt ml tol result = Some r \<and> length result < length r"
  using assms unfolding offsetVertex_def Let_def bevelJoin_def
  by (cases jt) auto

lemma forEach_grows:
  assumes "\<And>i s. \<exists>s'. body i s = Some s' \<and> length s < length s'"
  shows "\<exists>s'. forEach body xs s = Some s' \<and> length s + length xs \<le> length s'"
proof (induction xs arbitrary: s)
  case Nil
  show ?case by simp
next
  case (Cons i xs)
  obtain s1 where s1: "body i s = Some s1" "length s < length s1" using assms by blast
  obtain s' where s': "forEach body xs s1 = Some s'" "length s1 + length xs \<le> length s'"
    using Cons.IH by blast
  show ?case using s1 s' by simp
qed

lemma offsetPolygon_closed_grows:
  assumes "jt \<noteq> JoinType.Round" "\<not> isOpen et"
  shows "\<exists>r. offsetPolygon pts off jt et ml tol = Some r \<and> (3 \<le> length pts \<longrightarrow> length pts \<le> length r)"
proof (cases "length pts < 3")
  case True
  then show ?thesis by (simp add: offsetPolygon_def)
next
  case False
  obtain r where r: "vertexLoop pts off jt et ml tol [] = Some r"
      "length ([]::Pt list) + length [0 ..< loopCount et (length pts)] \<le> length r"
    unfolding vertexLoop_def Let_def
    using forEach_grows[where body = "\<lambda>i. offsetVertex (pts ! ((i + length pts - 1) mod length pts))
        (pts ! i) (pts ! ((i + 1) mod length pts)) off jt ml tol" and s = "[]"
        and xs = "[0 ..< loopCount et (length pts)]"]
      offsetVertex_grows[OF assms(1)] by blast
  then show ?thesis using False assms(2) by (simp add: offsetPolygon_def loopCount_def)
qed

section \<open>Calls that do not return\<close>

lemma hash_pair: "parsePair ''M #'' 2 = (NaN, NaN, 2)"
  by code_simp

lemma hash_skip: "skipSep ''M #'' 2 = 2"
  by code_simp

lemma hash_iter:
  assumes "pos st = 2" "cmd st = ''L''"
  shows "\<exists>st'. parseIter ''M #'' st = Again st' \<and> pos st' = 2 \<and> cmd st' = ''L''"
  using assms
  by (simp add: parseIter_def parseTail_def parseCommand_def Let_def hash_pair hash_skip
        isLetter_def isSep_def)

lemma hash_loop:
  assumes "parseLoop src st = Some y"
  shows "\<not> (src = ''M #'' \<and> pos st = 2 \<and> cmd st = ''L'')"
proof (rule parseLoop.raw_induct[where P = "\<lambda>src st y. \<not> (src = ''M #'' \<and> pos st = 2 \<and> cmd st = ''L'')",
      OF _ assms])
  fix f :: "string \<Rightarrow> PState \<Rightarrow> Subpath list option" and src st y
  assume IH: "\<And>src st y. f src st = Some y \<Longrightarrow> \<not> (src = ''M #'' \<and> pos st = 2 \<and> cmd st = ''L'')"
    and step: "(if pos st < length src
                then case parseIter src st of Break st' \<Rightarrow> Some (subpaths st')
                     | Again st' \<Rightarrow> f src st'
                else Some (subpaths st)) = Some y"
  show "\<not> (src = ''M #'' \<and> pos st = 2 \<and> cmd st = ''L'')"
  proof
    assume inv: "src = ''M #'' \<and> pos st = 2 \<and> cmd st = ''L''"
    then obtain st' where st': "parseIter ''M #'' st = Again st'" "pos st' = 2" "cmd st' = ''L''"
      using hash_iter by blast
    with step inv have "f ''M #'' st' = Some y" by simp
    from IH[OF this] st' show False by simp
  qed
qed

lemma hash_first:
  "parseIter ''M #'' \<lparr>pos = 0, subpaths = [], cx = Fin 0, cy = Fin 0, cmd = ''''\<rparr>
     = Again \<lparr>pos = 2, subpaths = [newSubpath (NaN, NaN)], cx = NaN, cy = NaN, cmd = ''L''\<rparr>"
  by code_simp

text \<open>
  The parser does not return on the path data \<^verbatim>\<open>M #\<close>: at a character that is neither a
  letter, a separator nor part of a number, the line command reads two empty numbers and
  leaves the position where it was.
\<close>

lemma parseSvgPath_diverges: "parseSvgPath ''M #'' = None"
proof (cases "parseSvgPath ''M #''")
  case None
  then show ?thesis .
next
  case (Some y)
  have t: "trim ''M #'' = ''M #''" by (simp add: trim_def isWhite_def)
  have "parseLoop ''M #'' \<lparr>pos = 2, subpaths = [newSubpath (NaN, NaN)], cx = NaN, cy = NaN,
      cmd = ''L''\<rparr> = Some y"
    using Some unfolding parseSvgPath_def t
    by (subst (asm) parseLoop.simps) (simp add: hash_first)
  from hash_loop[OF this] show ?thesis by simp
qed

lemma mid_pt_NaN: "fst b = NaN \<Longrightarrow> fst (mid_pt a b) = NaN"
  by (simp add: mid_pt_def)

lemma isFlat_NaN: "fst p3 = NaN \<Longrightarrow> \<not> isFlat p0 p1 p2 p3 tol"
  by (simp add: isFlat_def Let_def)

text \<open>
  \<^verbatim>\<open>flattenCubic\<close> does not return when the end point has a \<open>NaN\<close> coordinate, as after a
  curve command with too few numbers: the flatness test fails at every level.
\<close>

lemma flattenCubic_diverges:
  assumes "fst p3 = NaN"
  shows "flattenCubic p0 p1 p2 p3 tol out = None"
proof (cases "flattenCubic p0 p1 p2 p3 tol out")
  case None
  then show ?thesis .
next
  case (Some y)
  have "fst p3 \<noteq> NaN"
  proof (rule flattenCubic.raw_induct[where P = "\<lambda>p0 p1 p2 p3 tol out y. fst p3 \<noteq> NaN", OF _ Some])
    fix f :: "Pt \<Rightarrow> Pt \<Rightarrow> Pt \<Rightarrow> Pt \<Rightarrow> number \<Rightarrow> Pt list \<Rightarrow> Pt list option"
      and p0 p1 p2 p3 tol out y
    assume IH: "\<And>p0 p1 p2 p3 tol out y. f p0 p1 p2 p3 tol out = Some y \<Longrightarrow> fst p3 \<noteq> NaN"
      and step: "(if isFlat p0 p1 p2 p3 tol then Some (out @ [p3])
           else let m01 = mid_pt p0 p1; m12 = mid_pt p1 p2; m23 = mid_pt p2 p3;
                    m012 = mid_pt m01 m12; m123 = mid_pt m12 m23; mid = mid_pt m012 m123
                in Option.bind (f p0 m01 m012 mid tol out) (f mid m123 m23 p3 tol)) = Some y"
    show "fst p3 \<noteq> NaN"
    proof
      assume n: "fst p3 = NaN"
      then have "\<not> isFlat p0 p1 p2 p3 tol" by (rule isFlat_NaN)
      with step obtain r where
        "f p0 (mid_pt p0 p1) (mid_pt (mid_pt p0 p1) (mid_pt p1 p2))
           (mid_pt (mid_pt (mid_pt p0 p1) (mid_pt p1 p2)) (mid_pt (mid_pt p1 p2) (mid_pt p2 p3)))
           tol out = Some r"
        by (auto simp: Let_def bind_eq_Some_conv)
      from IH[OF this] show False
        using n by (simp add: mid_pt_NaN)
    qed
  qed
  with assms show ?thesis by simp
qed

section \<open>Two concrete paths\<close>

lemma parse_triangle:
  "parseSvgPath ''M 0 0 L 0 9 L 9 9'' =
     Some [\<lparr>segs = [\<lparr>seg_type = SegM, seg_pts = [(Fin 0, Fin 0)]\<rparr>,
                    \<lparr>seg_type = SegL, seg_pts = [(Fin 0, Fin 9)]\<rparr>,
                    \<lparr>seg_type = SegL, seg_pts = [(Fin 9, Fin 9)]\<rparr>], closed = False\<rparr>]"
  by code_simp

theorem svgToPoints_winding_witness:
  "\<exists>pts. svgToPoints ''M 0 0 L 0 9 L 9 9'' SCALE FLATTEN_TOLERANCE = Some (Some pts)
     \<and> pts = [(Fin 9000, Fin 9000), (Fin 0, Fin 9000), (Fin 0, Fin 0)]
     \<and> shoelace pts \<le> Fin 0"
proof -
  from svgToPoints_winding [OF parse_triangle, of FLATTEN_TOLERANCE
      "[(Fin 0, Fin 0), (Fin 0, Fin 9), (Fin 9, Fin 9)]" SCALE]
  obtain pts where p: "svgToPoints ''M 0 0 L 0 9 L 9 9'' SCALE FLATTEN_TOLERANCE = Some (Some pts)"
      "pts = [(Fin 9000, Fin 9000), (Fin 0, Fin 9000), (Fin 0, Fin 0)]"
      "\<forall>B. list_all (smallIntPt B)
             (scalePts [(Fin 0, Fin 0), (Fin 0, Fin 9), (Fin 9, Fin 9)] SCALE)
           \<and> 4 * real (length (scalePts [(Fin 0, Fin 0), (Fin 0, Fin 9), (Fin 9, Fin 9)] SCALE))
               * B * B \<le> 2 ^ 53
           \<longrightarrow> shoelace pts \<le> Fin 0"
    by (auto simp add: SCALE_def scalePts_def shoelace_def upt_rec)
  from p(3)[rule_format, of 9000] have "shoelace pts \<le> Fin 0"
    by (simp add: SCALE_def scalePts_def smallIntPt_def smallInt_def)
  with p(1,2) show ?thesis by blast
qed

lemma parse_no_move:
  "parseSvgPath ''L 0 0 L 9 0 L 9 9'' =
     Some [\<lparr>segs = [\<lparr>seg_type = SegM, seg_pts = [(Fin 0, Fin 0)]\<rparr>,
                    \<lparr>seg_type = SegL, seg_pts = [(Fin 0, Fin 0)]\<rparr>,
                    \<lparr>seg_type = SegL, seg_pts = [(Fin 9, Fin 0)]\<rparr>,
                    \<lparr>seg_type = SegL, seg_pts = [(Fin 9, Fin 9)]\<rparr>], closed = False\<rparr>]"
  by code_simp

lemma points_no_move:
  "svgToPoints ''L 0 0 L 9 0 L 9 9'' SCALE FLATTEN_TOLERANCE =
     Some (Some [(Fin 0, Fin 0), (Fin 0, Fin 0), (Fin 9000, Fin 0), (Fin 9000, Fin 9000)])"
  by (simp add: svgToPoints_def parse_no_move SCALE_def scalePts_def fixWinding_def shoelace_def
      upt_rec)

text \<open>
  C2 as stated fails for path data without a Move command: a line command with no current
  subpath opens one at its own end point, so this input gives four points, and a
  bevel-joined closed offset of them is not empty.
\<close>

theorem no_move_offset_counterexample:
  "offsetSvgPath ''L 0 0 L 9 0 L 9 9'' (Fin 1) (Fin 1) (Fin 0) (Fin 2) (Fin (1 / 4)) None None
     \<noteq> Some ''''"
proof -
  let ?pts = "[(Fin 0, Fin 0), (Fin 0, Fin 0), (Fin 9000, Fin 0), (Fin 9000, Fin 9000)]"
  have j: "joinTypeOf (Fin 1) = Bevel" "endTypeOf (Fin 0) = Polygon"
    by (simp_all add: joinTypeOf_def endTypeOf_def)
  obtain r where r: "offsetPolygon ?pts (Fin 1 * SCALE) Bevel Polygon (Fin 2) (Fin (1 / 4)) = Some r"
      "3 \<le> length ?pts \<longrightarrow> length ?pts \<le> length r"
    using offsetPolygon_closed_grows[of Bevel Polygon ?pts "Fin 1 * SCALE" "Fin 2" "Fin (1 / 4)"]
    by (auto simp: isOpen_def)
  then have "3 \<le> length r" by simp
  then have "degenerate ''L 0 0 L 9 0 L 9 9'' (Fin 1) (Fin 1) (Fin 0) (Fin 2) (Fin (1 / 4)) = False"
    using r(1) by (simp add: degenerate_def points_no_move j)
  then show ?thesis
    using offsetSvgPath_empty_iff[of "Fin 1" "''L 0 0 L 9 0 L 9 9''" "Fin 1" "Fin 0" "Fin 2"
        "Fin (1 / 4)" None None]
    by simp
qed

section \<open>Path data with missing numbers\<close>

text \<open>
  A number that is missing where the parser looks for one is \<open>NaN\<close>: \<^verbatim>\<open>parseNumber\<close> hands
  \<^verbatim>\<open>parseFloat\<close> an empty slice. In \<^verbatim>\<open>M 1 L 2 L 3\<close> every \<open>y\<close> is missing. The path has three
  points, which the offset engine, finding no direction between any two of them, returns
  as they are.
\<close>

lemma parse_nan:
  "parseSvgPath ''M 1 L 2 L 3'' =
     Some [\<lparr>segs = [\<lparr>seg_type = SegM, seg_pts = [(Fin 1, NaN)]\<rparr>,
                    \<lparr>seg_type = SegL, seg_pts = [(Fin 2, NaN)]\<rparr>,
                    \<lparr>seg_type = SegL, seg_pts = [(Fin 3, NaN)]\<rparr>], closed = False\<rparr>]"
  by code_simp

lemma shoelace_nan: "shoelace [(Fin 1000, NaN), (Fin 2000, NaN), (Fin 3000, NaN)] = NaN"
  by (simp add: shoelace_def upt_rec)

lemma points_nan:
  "svgToPoints ''M 1 L 2 L 3'' SCALE FLATTEN_TOLERANCE =
     Some (Some [(Fin 1000, NaN), (Fin 2000, NaN), (Fin 3000, NaN)])"
  by (simp add: svgToPoints_def parse_nan SCALE_def scalePts_def fixWinding_def shoelace_def
      upt_rec)

lemma offset_nan:
  "offsetPolygon [(Fin 1000, NaN), (Fin 2000, NaN), (Fin 3000, NaN)] (Fin 1 * SCALE)
     (joinTypeOf (Fin 2)) (endTypeOf (Fin 0)) (Fin 2) (Fin (1 / 4)) =
   Some [(Fin 1000, NaN), (Fin 2000, NaN), (Fin 3000, NaN)]"
  by (simp add: offsetPolygon_def vertexLoop_def loopCount_def isOpen_def upt3 offsetVertex_def
      norm_pt_def len_def sub_pt_def add_pt_def leftNormal_def cross_def offsetDir_def eps6_def
      pointAlong_def Let_def joinTypeOf_def endTypeOf_def SCALE_def)

text \<open>
  C3 as stated fails for this path: its first subpath has three points, and the shoelace
  sum of the list \<^verbatim>\<open>svgToPoints\<close> returns is \<open>NaN\<close>, which is not at most 0.
\<close>

theorem svgToPoints_winding_counterexample:
  "svgToPoints ''M 1 L 2 L 3'' SCALE FLATTEN_TOLERANCE =
     Some (Some [(Fin 1000, NaN), (Fin 2000, NaN), (Fin 3000, NaN)])
   \<and> \<not> shoelace [(Fin 1000, NaN), (Fin 2000, NaN), (Fin 3000, NaN)] \<le> Fin 0"
  by (simp add: points_nan shoelace_nan)

text \<open>
  C10 as stated fails for this path: the points the offset engine returns for it, at the
  offset 1 with the round join on the closed path, have a \<open>y\<close> that is not an integer.
\<close>

theorem offsetPolygon_points_counterexample:
  "svgToPoints ''M 1 L 2 L 3'' SCALE FLATTEN_TOLERANCE =
     Some (Some [(Fin 1000, NaN), (Fin 2000, NaN), (Fin 3000, NaN)])
   \<and> offsetPolygon [(Fin 1000, NaN), (Fin 2000, NaN), (Fin 3000, NaN)] (Fin 1 * SCALE)
       (joinTypeOf (Fin 2)) (endTypeOf (Fin 0)) (Fin 2) (Fin (1 / 4)) =
     Some [(Fin 1000, NaN), (Fin 2000, NaN), (Fin 3000, NaN)]
   \<and> \<not> isInteger (snd ([(Fin 1000, NaN), (Fin 2000, NaN), (Fin 3000, NaN)] ! 0))"
  by (simp add: points_nan offset_nan)

text \<open>
  C9 as stated fails for this path with the anchor fraction 1/2 on the \<open>y\<close> axis: no \<open>y\<close>
  enters a box, the anchor coordinate of either box is \<open>NaN\<close>, and so is the shift, which is
  no integer; the anchor coordinate after the translation is not within 1 of the one
  before.
\<close>

theorem anchor_shift_counterexample:
  "svgToPoints ''M 1 L 2 L 3'' SCALE FLATTEN_TOLERANCE =
     Some (Some [(Fin 1000, NaN), (Fin 2000, NaN), (Fin 3000, NaN)])
   \<and> offsetPolygon [(Fin 1000, NaN), (Fin 2000, NaN), (Fin 3000, NaN)] (Fin 1 * SCALE)
       (joinTypeOf (Fin 2)) (endTypeOf (Fin 0)) (Fin 2) (Fin (1 / 4)) =
     Some [(Fin 1000, NaN), (Fin 2000, NaN), (Fin 3000, NaN)]
   \<and> anchorDelta (minY (bbox [(Fin 1000, NaN), (Fin 2000, NaN), (Fin 3000, NaN)]))
       (maxY (bbox [(Fin 1000, NaN), (Fin 2000, NaN), (Fin 3000, NaN)]))
       (minY (bbox [(Fin 1000, NaN), (Fin 2000, NaN), (Fin 3000, NaN)]))
       (maxY (bbox [(Fin 1000, NaN), (Fin 2000, NaN), (Fin 3000, NaN)])) (Some (Fin (1 / 2))) = NaN
   \<and> \<not> \<bar>anchorAt (minY (bbox [(Fin 1000, NaN), (Fin 2000, NaN), (Fin 3000, NaN)]))
            (maxY (bbox [(Fin 1000, NaN), (Fin 2000, NaN), (Fin 3000, NaN)])) (Fin (1 / 2))
        - anchorAt
            (minY (bbox (anchorTranslate [(Fin 1000, NaN), (Fin 2000, NaN), (Fin 3000, NaN)]
               [(Fin 1000, NaN), (Fin 2000, NaN), (Fin 3000, NaN)] None (Some (Fin (1 / 2))))))
            (maxY (bbox (anchorTranslate [(Fin 1000, NaN), (Fin 2000, NaN), (Fin 3000, NaN)]
               [(Fin 1000, NaN), (Fin 2000, NaN), (Fin 3000, NaN)] None (Some (Fin (1 / 2))))))
            (Fin (1 / 2))\<bar> \<le> Fin 1"
proof -
  have b: "bbox [(Fin 1000, NaN), (Fin 2000, NaN), (Fin 3000, NaN)] =
      \<lparr>minX = Fin 1000, minY = PosInf, maxX = Fin 3000, maxY = NegInf\<rparr>"
    by (simp add: bbox_def bboxStep_def Let_def less_number_def)
  have a: "anchorAt PosInf NegInf (Fin (1 / 2)) = NaN"
    by (simp add: anchorAt_def minus_number_def plus_number_def times_number_def
        uminus_number_def inf_of_def)
  have d: "anchorDelta PosInf NegInf PosInf NegInf (Some (Fin (1 / 2))) = NaN"
    by (simp add: anchorDelta_def a)
  have t: "anchorTranslate [(Fin 1000, NaN), (Fin 2000, NaN), (Fin 3000, NaN)]
      [(Fin 1000, NaN), (Fin 2000, NaN), (Fin 3000, NaN)] None (Some (Fin (1 / 2))) =
      [(Fin 1000, NaN), (Fin 2000, NaN), (Fin 3000, NaN)]"
    by (simp add: anchorTranslate_map b d anchorDelta_def)
  show ?thesis
    by (simp add: points_nan offset_nan t b a d)
qed

end
